theory Spec2Isabelle
  imports Main "HOL-Library.Word"
begin

unbundle bit_operations_syntax

section \<open>Buffers and JavaScript numbers\<close>

text \<open>
  A Node \<open>Buffer\<close> is a list of bytes. The numbers the driver computes with are
  integers, or \<open>NaN\<close> where arithmetic meets \<open>undefined\<close> (a read past the end
  of a buffer): \<open>None\<close> stands for \<open>NaN\<close> in a \<open>number\<close> and for \<open>undefined\<close>
  in a \<open>byte option\<close>.
\<close>

type_synonym byte = "8 word"
type_synonym buffer = "byte list"
type_synonym number = "int option"

text \<open>\<open>buf[i]\<close>: \<open>undefined\<close> outside the buffer.\<close>

definition at :: "buffer \<Rightarrow> int \<Rightarrow> byte option" where
  "at buf i = (if 0 \<le> i \<and> i < int (length buf) then Some (buf ! nat i) else None)"

text \<open>
  \<open>Buffer.prototype.slice(start, end)\<close>: a negative offset counts from the end, and
  both offsets are clamped to the buffer.
\<close>

definition adjustOffset :: "int \<Rightarrow> int \<Rightarrow> int" where
  "adjustOffset offset len =
     (if offset < 0 then (if offset + len > 0 then offset + len else 0)
      else if offset < len then offset
      else len)"

definition slice :: "buffer \<Rightarrow> int \<Rightarrow> int \<Rightarrow> buffer" where
  "slice buf start fin =
     (let srcLength = int (length buf);
          start' = adjustOffset start srcLength;
          fin' = adjustOffset fin srcLength;
          newLength = (if fin' > start' then fin' - start' else 0)
      in take (nat newLength) (drop (nat start') buf))"

text \<open>\<open>buf.slice(start)\<close>: the end defaults to the length of the buffer.\<close>

definition slice_from :: "buffer \<Rightarrow> int \<Rightarrow> buffer" where
  "slice_from buf start = slice buf start (int (length buf))"

text \<open>
  \<open>errorCodeData[0] * 256 + errorCodeData[1]\<close> on \<open>response.slice(-2)\<close>: the status
  word, or \<open>NaN\<close> when the response has fewer than two bytes.
\<close>

definition returnCode_of :: "buffer \<Rightarrow> number" where
  "returnCode_of response =
     (let errorCodeData = slice_from response (- 2)
      in case (at errorCodeData 0, at errorCodeData 1) of
           (Some hi, Some lo) \<Rightarrow> Some (uint hi * 256 + uint lo)
         | _ \<Rightarrow> None)"

text \<open>
  \<open>buf.toString("ascii")\<close> clears the top bit of every byte;
  \<open>buf.toString("hex")\<close> prints two lower-case digits per byte.
\<close>

definition toString_ascii :: "buffer \<Rightarrow> string" where
  "toString_ascii buf = map (\<lambda>b. char_of (unat (b AND 0x7f))) buf"

definition hexdigit :: "nat \<Rightarrow> char" where
  "hexdigit d = (''0123456789abcdef'') ! (d mod 16)"

definition toString_hex :: "buffer \<Rightarrow> string" where
  "toString_hex buf = concat (map (\<lambda>b. [hexdigit (unat b div 16), hexdigit (unat b mod 16)]) buf)"

text \<open>\<open>n.toString(16)\<close> for an integer \<open>n\<close>.\<close>

function hex_nat :: "nat \<Rightarrow> string" where
  "hex_nat n = (if n < 16 then [hexdigit n] else hex_nat (n div 16) @ [hexdigit (n mod 16)])"
  by pat_completeness auto
termination
  by (relation "measure (\<lambda>n. n)") auto

declare hex_nat.simps [simp del]

definition toString16 :: "int \<Rightarrow> string" where
  "toString16 n = (if n < 0 then ''-'' @ hex_nat (nat (- n)) else hex_nat (nat n))"

text \<open>\<open>x << k\<close> on a byte: JavaScript shifts in 32 bits and reads the result signed.\<close>

definition js_shl :: "byte \<Rightarrow> nat \<Rightarrow> int" where
  "js_shl x k = sint (push_bit k (ucast x :: 32 word))"

section \<open>Errors, commands and the transport\<close>

text \<open>
  Every \<open>throw\<close> is a value: \<open>LedgerError code message\<close> is
  \<open>new LedgerError(code, message)\<close> (the message is optional), \<open>Error\<close> a plain
  \<open>Error\<close>, \<open>RangeError\<close> what a \<open>Buffer\<close> write raises for a value outside its
  range, and \<open>TransportError\<close> whatever the transport throws.
\<close>

datatype error =
    LedgerError number "string option"
  | Error string
  | RangeError
  | TransportError nat

datatype payload_type = INIT | ADD | LAST

record apdu =
  cla :: int
  ins :: int
  p1 :: int
  p2 :: int
  data :: buffer
  statusList :: "int list option"

text \<open>
  \<open>transport.send\<close> is the external collaborator: any function from a command and
  the device's state to a response (or a failure) and the next state.
\<close>

type_synonym 's transport = "apdu \<Rightarrow> 's \<Rightarrow> (error + buffer) \<times> 's"

text \<open>
  The module \<open>./common\<close> is not among the sources: its constants, the status-code
  translator and the error wrapper are parameters of the model, and so is the UTF-8
  decoder behind \<open>buf.toString()\<close>.
\<close>

record common =
  CLA :: int
  INS_GET_VERSION :: int
  INS_GET_ADDR_SECP256K1 :: int
  INS_SIGN_SECP256K1 :: int
  ONLY_RETRIEVE :: int
  SHOW_ADDRESS_IN_DEVICE :: int
  PAYLOAD_TYPE :: "payload_type \<Rightarrow> int"
  NoErrors :: int
  DataIsInvalid :: int
  BadKeyHandle :: int
  SignVerifyError :: int
  ExecutionError :: int
  HPRInvalid :: int
  AppDoesNotSeemToBeOpen :: int
  errorCodeToString :: "number \<Rightarrow> string"
  ledgerErrorFromResponse :: "error \<Rightarrow> error"
  utf8ToString :: "buffer \<Rightarrow> string"

text \<open>Modelled from the spec: the chunk size \<open>CHUNK_SIZE\<close> of \<open>./common\<close>, 150 bytes.\<close>

definition CHUNK_SIZE :: nat where
  "CHUNK_SIZE = 150"

record BaseResponse =
  returnCode :: number
  errorMessage :: string

record SignResponse = BaseResponse +
  signature :: "buffer option"

section \<open>Sending one chunk\<close>

text \<open>\<open>signSendChunkv1\<close> and \<open>signSendChunkv2\<close>, the helpers \<open>index.ts\<close> imports.\<close>

definition signSendChunkv1 ::
  "common \<Rightarrow> 's transport \<Rightarrow> int \<Rightarrow> int \<Rightarrow> buffer \<Rightarrow> 's \<Rightarrow> (error + SignResponse) \<times> 's" where
  "signSendChunkv1 c send chunkIdx chunkNum chunk s =
     (case send \<lparr>cla = CLA c, ins = INS_SIGN_SECP256K1 c, p1 = chunkIdx, p2 = chunkNum,
                 data = chunk,
                 statusList = Some [NoErrors c, DataIsInvalid c, BadKeyHandle c]\<rparr> s of
        (Inl err, s') \<Rightarrow> (Inl (ledgerErrorFromResponse c err), s')
      | (Inr response, s') \<Rightarrow>
          (let returnCode = returnCode_of response;
               errorMessage = errorCodeToString c returnCode;
               errorMessage =
                 (if returnCode = Some (BadKeyHandle c) \<or> returnCode = Some (DataIsInvalid c)
                  then errorMessage @ '' : '' @
                       toString_ascii (slice response 0 (int (length response) - 2))
                  else errorMessage)
           in if length response > 2
              then (Inr \<lparr>returnCode = returnCode, errorMessage = errorMessage,
                         signature = Some (slice response 0 (int (length response) - 2))\<rparr>, s')
              else (Inl (ledgerErrorFromResponse c (LedgerError returnCode (Some errorMessage))),
                    s')))"

definition signSendChunkv2 ::
  "common \<Rightarrow> 's transport \<Rightarrow> int \<Rightarrow> int \<Rightarrow> buffer \<Rightarrow> 's \<Rightarrow> (error + SignResponse) \<times> 's" where
  "signSendChunkv2 c send chunkIdx chunkNum chunk s =
     (let payloadType = ADD;
          payloadType = (if chunkIdx = 1 then INIT else payloadType);
          payloadType = (if chunkIdx = chunkNum then LAST else payloadType)
      in signSendChunkv1 c send (PAYLOAD_TYPE c payloadType) 0 chunk s)"

text \<open>\<open>signSendChunk\<close> of \<open>helper.ts\<close>.\<close>

definition signSendChunk ::
  "common \<Rightarrow> 's transport \<Rightarrow> int \<Rightarrow> int \<Rightarrow> buffer \<Rightarrow> 's \<Rightarrow> (error + SignResponse) \<times> 's" where
  "signSendChunk c send chunkIdx chunkNum chunk s =
     (let payloadType = ADD;
          payloadType = (if chunkIdx = 1 then INIT else payloadType);
          payloadType = (if chunkIdx = chunkNum then LAST else payloadType)
      in case send \<lparr>cla = CLA c, ins = INS_SIGN_SECP256K1 c, p1 = PAYLOAD_TYPE c payloadType,
                    p2 = 0, data = chunk,
                    statusList = Some [NoErrors c, DataIsInvalid c, BadKeyHandle c,
                                       SignVerifyError c]\<rparr> s of
           (Inl err, s') \<Rightarrow> (Inl err, s')
         | (Inr response, s') \<Rightarrow>
             (let returnCode = returnCode_of response;
                  errorMessage = errorCodeToString c returnCode
              in if returnCode = Some (BadKeyHandle c) \<or> returnCode = Some (DataIsInvalid c) \<or>
                    returnCode = Some (SignVerifyError c)
                 then (Inl (LedgerError returnCode
                         (Some (errorMessage @ '' : '' @
                            toString_ascii (slice response 0 (int (length response) - 2))))), s')
                 else if returnCode = Some (NoErrors c) \<and> length response > 2
                 then (Inr \<lparr>returnCode = returnCode, errorMessage = errorMessage,
                            signature = Some (slice response 0 (int (length response) - 2))\<rparr>, s')
                 else (Inr \<lparr>returnCode = returnCode, errorMessage = errorMessage,
                            signature = None\<rparr>, s')))"

section \<open>Serialising the path and the prefix\<close>

definition bind_r :: "error + 'a \<Rightarrow> ('a \<Rightarrow> error + 'b) \<Rightarrow> error + 'b" where
  "bind_r m f = (case m of Inl e \<Rightarrow> Inl e | Inr x \<Rightarrow> f x)"

text \<open>
  \<open>buf.writeUInt32LE(value, offset)\<close> and \<open>buf.writeUInt8(value, offset)\<close>: a value
  outside the range of the field raises a \<open>RangeError\<close>. The offsets the driver
  passes are constants inside the buffer.
\<close>

definition writeUInt32LE :: "buffer \<Rightarrow> int \<Rightarrow> nat \<Rightarrow> error + buffer" where
  "writeUInt32LE buf v offset =
     (if v < 0 \<or> v > 0xFFFFFFFF then Inl RangeError
      else Inr (buf[offset := word_of_int v,
                    offset + 1 := word_of_int (v div 2 ^ 8),
                    offset + 2 := word_of_int (v div 2 ^ 16),
                    offset + 3 := word_of_int (v div 2 ^ 24)]))"

definition writeUInt8 :: "buffer \<Rightarrow> int \<Rightarrow> nat \<Rightarrow> error + buffer" where
  "writeUInt8 buf v offset =
     (if v < 0 \<or> v > 0xFF then Inl RangeError else Inr (buf[offset := word_of_int v]))"

text \<open>
  \<open>buf.write(string, offset)\<close> stores the UTF-8 encoding of the string, character by
  character, and stops before the first character that no longer fits. A \<open>char\<close>
  is a code unit below 256: one byte when it is ASCII, two otherwise.
\<close>

definition utf8 :: "char \<Rightarrow> buffer" where
  "utf8 ch =
     (let n = (of_char ch :: nat)
      in if n < 128 then [of_nat n] else [of_nat (192 + n div 64), of_nat (128 + n mod 64)])"

fun store :: "buffer \<Rightarrow> nat \<Rightarrow> buffer \<Rightarrow> buffer" where
  "store buf offset [] = buf"
| "store buf offset (b # bs) = store (buf[offset := b]) (Suc offset) bs"

fun Buffer_write :: "buffer \<Rightarrow> string \<Rightarrow> nat \<Rightarrow> buffer" where
  "Buffer_write buf [] offset = buf"
| "Buffer_write buf (ch # rest) offset =
     (if offset + length (utf8 ch) \<le> length buf
      then Buffer_write (store buf offset (utf8 ch)) rest (offset + length (utf8 ch))
      else buf)"

text \<open>\<open>serializePathv2\<close> (imported by \<open>index.ts\<close>) and \<open>serializePath\<close> of \<open>helper.ts\<close>.\<close>

definition serializePathv2 :: "int list \<Rightarrow> error + buffer" where
  "serializePathv2 path =
     (if length path \<noteq> 5 then Inl (Error ''Invalid path.'')
      else bind_r (writeUInt32LE (replicate 20 0) (0x80000000 + path ! 0) 0) (\<lambda>buf.
           bind_r (writeUInt32LE buf (0x80000000 + path ! 1) 4) (\<lambda>buf.
           bind_r (writeUInt32LE buf (0x80000000 + path ! 2) 8) (\<lambda>buf.
           bind_r (writeUInt32LE buf (path ! 3) 12) (\<lambda>buf.
           writeUInt32LE buf (path ! 4) 16)))))"

definition serializePath :: "int list \<Rightarrow> error + buffer" where
  "serializePath path =
     (if length path \<noteq> 5 then Inl (Error ''Invalid path.'')
      else bind_r (writeUInt32LE (replicate 20 0) (0x80000000 + path ! 0) 0) (\<lambda>buf.
           bind_r (writeUInt32LE buf (0x80000000 + path ! 1) 4) (\<lambda>buf.
           bind_r (writeUInt32LE buf (0x80000000 + path ! 2) 8) (\<lambda>buf.
           bind_r (writeUInt32LE buf (path ! 3) 12) (\<lambda>buf.
           writeUInt32LE buf (path ! 4) 16)))))"

text \<open>Reading a little-endian 32-bit word back, to state what the serializer wrote.\<close>

definition readUInt32LE :: "buffer \<Rightarrow> nat \<Rightarrow> int" where
  "readUInt32LE buf offset =
     uint (buf ! offset) + uint (buf ! (offset + 1)) * 2 ^ 8 +
     uint (buf ! (offset + 2)) * 2 ^ 16 + uint (buf ! (offset + 3)) * 2 ^ 24"

text \<open>
  \<open>THORChainApp.serializeHRP\<close> of \<open>index.ts\<close> and \<open>serializeHRP\<close> of \<open>helper.ts\<close>;
  \<open>None\<close> is a \<open>null\<close> or \<open>undefined\<close> prefix.
\<close>

definition THORChainApp_serializeHRP :: "common \<Rightarrow> string option \<Rightarrow> error + buffer" where
  "THORChainApp_serializeHRP c hrp =
     (case hrp of
        None \<Rightarrow> Inl (LedgerError (Some (HPRInvalid c)) None)
      | Some h \<Rightarrow>
          if length h < 3 \<or> length h > 83 then Inl (LedgerError (Some (HPRInvalid c)) None)
          else bind_r (writeUInt8 (replicate (1 + length h) 0) (int (length h)) 0) (\<lambda>buf.
               Inr (Buffer_write buf h 1)))"

definition serializeHRP :: "common \<Rightarrow> string option \<Rightarrow> error + buffer" where
  "serializeHRP c hrp =
     (case hrp of
        None \<Rightarrow> Inl (LedgerError (Some (HPRInvalid c)) None)
      | Some h \<Rightarrow>
          if h = [] \<or> length h < 3 \<or> length h > 83
          then Inl (LedgerError (Some (HPRInvalid c)) None)
          else bind_r (writeUInt8 (replicate (1 + length h) 0) (int (length h)) 0) (\<lambda>buf.
               Inr (Buffer_write buf h 1)))"

section \<open>The version query and the dispatch on the major version\<close>

record VersionResponse = BaseResponse +
  testMode :: bool
  major :: "byte option"
  minor :: "byte option"
  patch :: "byte option"
  deviceLocked :: bool
  targetId :: string

text \<open>\<open>getVersion\<close> of \<open>helper.ts\<close>.\<close>

definition getVersion :: "common \<Rightarrow> 's transport \<Rightarrow> 's \<Rightarrow> (error + VersionResponse) \<times> 's" where
  "getVersion c send s =
     (case send \<lparr>cla = CLA c, ins = INS_GET_VERSION c, p1 = 0, p2 = 0, data = [],
                 statusList = None\<rparr> s of
        (Inl err, s') \<Rightarrow> (Inl (ledgerErrorFromResponse c err), s')
      | (Inr response, s') \<Rightarrow>
          (let returnCode = returnCode_of response;
               targetId = (0 :: int);
               targetId =
                 (if length response \<ge> 9
                  then js_shl (response ! 5) 24 + js_shl (response ! 6) 16 +
                       js_shl (response ! 7) 8 + js_shl (response ! 8) 0
                  else targetId)
           in (Inr \<lparr>returnCode = returnCode, errorMessage = errorCodeToString c returnCode,
                     testMode = (at response 0 \<noteq> Some 0),
                     major = at response 1,
                     minor = at response 2,
                     patch = at response 3,
                     deviceLocked = (at response 4 = Some 1),
                     targetId = toString16 targetId\<rparr>, s')))"

text \<open>The methods of the class \<open>THORChainApp\<close> of \<open>index.ts\<close>.\<close>

definition THORChainApp_serializePath ::
  "common \<Rightarrow> 's transport \<Rightarrow> int list \<Rightarrow> 's \<Rightarrow> (error + buffer) \<times> 's" where
  "THORChainApp_serializePath c send path s =
     (case getVersion c send s of
        (Inl err, s') \<Rightarrow> (Inl err, s')
      | (Inr version, s') \<Rightarrow>
          if returnCode version \<noteq> Some (NoErrors c)
          then (Inl (LedgerError (returnCode version) (Some (errorMessage version))), s')
          else if major version = Some 2 then (serializePathv2 path, s')
          else (Inl (LedgerError (Some (ExecutionError c))
                  (Some ''App Version is not supported'')), s'))"

function signGetChunks_loop :: "buffer \<Rightarrow> nat \<Rightarrow> buffer list \<Rightarrow> buffer list" where
  "signGetChunks_loop buffer i chunks =
     (if i < length buffer
      then (let fin = i + CHUNK_SIZE;
                fin = (if i > length buffer then length buffer else fin)
            in signGetChunks_loop buffer (i + CHUNK_SIZE)
                 (chunks @ [slice buffer (int i) (int fin)]))
      else chunks)"
  by pat_completeness auto
termination
  by (relation "measure (\<lambda>(buffer, i, chunks). length buffer - i)")
    (auto simp: CHUNK_SIZE_def)

declare signGetChunks_loop.simps [simp del]

definition THORChainApp_signGetChunks ::
  "common \<Rightarrow> 's transport \<Rightarrow> int list \<Rightarrow> buffer \<Rightarrow> 's \<Rightarrow> (error + buffer list) \<times> 's" where
  "THORChainApp_signGetChunks c send path message s =
     (case THORChainApp_serializePath c send path s of
        (Inl err, s') \<Rightarrow> (Inl err, s')
      | (Inr serializedPath, s') \<Rightarrow> (Inr (signGetChunks_loop message 0 [serializedPath]), s'))"

definition THORChainApp_signSendChunk ::
  "common \<Rightarrow> 's transport \<Rightarrow> int \<Rightarrow> int \<Rightarrow> buffer \<Rightarrow> 's \<Rightarrow> (error + SignResponse) \<times> 's" where
  "THORChainApp_signSendChunk c send chunkIdx chunkNum chunk s =
     (case getVersion c send s of
        (Inl err, s') \<Rightarrow> (Inl err, s')
      | (Inr version, s') \<Rightarrow>
          if major version = Some 2 then signSendChunkv2 c send chunkIdx chunkNum chunk s'
          else (Inl (LedgerError (Some (ExecutionError c))
                  (Some ''App Version is not supported'')), s'))"

section \<open>Signing\<close>

function sign_loop ::
  "common \<Rightarrow> 's transport \<Rightarrow> buffer list \<Rightarrow> nat \<Rightarrow> SignResponse \<Rightarrow> 's \<Rightarrow>
     (error + SignResponse) \<times> 's" where
  "sign_loop c send chunks i result s =
     (if i < length chunks
      then (case THORChainApp_signSendChunk c send (1 + int i) (int (length chunks))
                   (chunks ! i) s of
              (Inl err, s') \<Rightarrow> (Inl err, s')
            | (Inr result', s') \<Rightarrow>
                if returnCode result' \<noteq> Some (NoErrors c) then (Inr result', s')
                else sign_loop c send chunks (i + 1) result' s')
      else (Inr result, s))"
  by pat_completeness auto
termination
  by (relation "measure (\<lambda>(c, send, chunks, i, result, s). length chunks - i)") auto

declare sign_loop.simps [simp del]

definition sign ::
  "common \<Rightarrow> 's transport \<Rightarrow> int list \<Rightarrow> buffer \<Rightarrow> 's \<Rightarrow> (error + SignResponse) \<times> 's" where
  "sign c send path message s =
     (case THORChainApp_signGetChunks c send path message s of
        (Inl err, s1) \<Rightarrow> (Inl err, s1)
      | (Inr chunks, s1) \<Rightarrow>
          (case THORChainApp_signSendChunk c send 1 (int (length chunks)) (chunks ! 0) s1 of
             (Inl err, s2) \<Rightarrow> (Inl err, s2)
           | (Inr response, s2) \<Rightarrow>
               (let result = \<lparr>returnCode = returnCode response,
                               errorMessage = errorMessage response,
                               signature = None\<rparr>
                in case sign_loop c send chunks 1 result s2 of
                     (Inl err, s3) \<Rightarrow> (Inl err, s3)
                   | (Inr result, s3) \<Rightarrow>
                       (Inr \<lparr>returnCode = returnCode result,
                              errorMessage = errorMessage result,
                              signature = signature result\<rparr>, s3))))"

section \<open>Device information\<close>

text \<open>
  Positions and lengths in \<open>deviceInfo\<close> are numbers that turn \<open>NaN\<close> once a length
  byte is read past the end: \<open>undefined\<close> in a sum gives \<open>NaN\<close>, an index \<open>NaN\<close>
  reads \<open>undefined\<close>, and \<open>slice\<close> takes an offset \<open>NaN\<close> as 0.
\<close>

definition num_of :: "byte option \<Rightarrow> number" where
  "num_of b = map_option uint b"

definition plus_n :: "number \<Rightarrow> number \<Rightarrow> number" where
  "plus_n a b = (case (a, b) of (Some x, Some y) \<Rightarrow> Some (x + y) | _ \<Rightarrow> None)"

definition at_n :: "buffer \<Rightarrow> number \<Rightarrow> byte option" where
  "at_n buf i = (case i of None \<Rightarrow> None | Some k \<Rightarrow> at buf k)"

definition slice_n :: "buffer \<Rightarrow> number \<Rightarrow> number \<Rightarrow> buffer" where
  "slice_n buf start fin =
     slice buf (case start of None \<Rightarrow> 0 | Some k \<Rightarrow> k) (case fin of None \<Rightarrow> 0 | Some k \<Rightarrow> k)"

text \<open>
  The object \<open>deviceInfo\<close> returns: the four parsed fields are absent (\<open>None\<close>) in the
  dashboard-only answer. (\<open>device_targetId\<close> is the field \<open>targetId\<close> of the source.)
\<close>

record DeviceInfoResponse =
  return_code :: number
  error_message :: string
  device_targetId :: "string option"
  seVersion :: "string option"
  flag :: "string option"
  mcuVersion :: "string option"

definition deviceInfo :: "common \<Rightarrow> 's transport \<Rightarrow> 's \<Rightarrow> (error + DeviceInfoResponse) \<times> 's" where
  "deviceInfo c send s =
     (case send \<lparr>cla = 0xe0, ins = 0x01, p1 = 0, p2 = 0, data = [],
                 statusList = Some [NoErrors c, AppDoesNotSeemToBeOpen c]\<rparr> s of
        (Inl err, s') \<Rightarrow> (Inl (ledgerErrorFromResponse c err), s')
      | (Inr response, s') \<Rightarrow>
          (let returnCode = returnCode_of response
           in if returnCode = Some 0x6e00
              then (Inr \<lparr>return_code = returnCode,
                         error_message = ''This command is only available in the Dashboard'',
                         device_targetId = None, seVersion = None, flag = None,
                         mcuVersion = None\<rparr>, s')
              else
               (let targetId = toString_hex (slice response 0 4);
                    pos = Some 4;
                    secureElementVersionLen = num_of (at_n response pos);
                    pos = plus_n pos (Some 1);
                    seVersion =
                      utf8ToString c (slice_n response pos (plus_n pos secureElementVersionLen));
                    pos = plus_n pos secureElementVersionLen;
                    flagsLen = num_of (at_n response pos);
                    pos = plus_n pos (Some 1);
                    flag = toString_hex (slice_n response pos (plus_n pos flagsLen));
                    pos = plus_n pos flagsLen;
                    mcuVersionLen = num_of (at_n response pos);
                    pos = plus_n pos (Some 1);
                    tmp = slice_n response pos (plus_n pos mcuVersionLen);
                    tmp = (if at_n tmp (plus_n mcuVersionLen (Some (- 1))) = Some 0
                           then slice_n response pos
                                  (plus_n (plus_n pos mcuVersionLen) (Some (- 1)))
                           else tmp);
                    mcuVersion = utf8ToString c tmp
                in (Inr \<lparr>return_code = returnCode,
                           error_message = errorCodeToString c returnCode,
                           device_targetId = Some targetId, seVersion = Some seVersion,
                           flag = Some flag, mcuVersion = Some mcuVersion\<rparr>, s'))))"

section \<open>Addresses and public keys\<close>

record AddressResponse = BaseResponse +
  bech32_address :: string
  compressed_pk :: buffer

definition getAddressAndPubKey ::
  "common \<Rightarrow> 's transport \<Rightarrow> int list \<Rightarrow> string option \<Rightarrow> 's \<Rightarrow>
     (error + AddressResponse) \<times> 's" where
  "getAddressAndPubKey c send path hrp s =
     (case THORChainApp_serializePath c send path s of
        (Inl err, s1) \<Rightarrow> (Inl err, s1)
      | (Inr serializedPath, s1) \<Rightarrow>
          (case THORChainApp_serializeHRP c hrp of
             Inl err \<Rightarrow> (Inl err, s1)
           | Inr serializedHRP \<Rightarrow>
               (let data = serializedHRP @ serializedPath
                in case send \<lparr>cla = CLA c, ins = INS_GET_ADDR_SECP256K1 c,
                              p1 = ONLY_RETRIEVE c, p2 = 0, data = data,
                              statusList = Some [NoErrors c]\<rparr> s1 of
                     (Inl err, s2) \<Rightarrow> (Inl err, s2)
                   | (Inr response, s2) \<Rightarrow>
                       (let returnCode = returnCode_of response;
                            compressedPk = slice response 0 33;
                            bech32Address = utf8ToString c (slice response 33 (- 2))
                        in (Inr \<lparr>returnCode = returnCode,
                                   errorMessage = errorCodeToString c returnCode,
                                   bech32_address = bech32Address,
                                   compressed_pk = compressedPk\<rparr>, s2)))))"

definition showAddressAndPubKey ::
  "common \<Rightarrow> 's transport \<Rightarrow> int list \<Rightarrow> string option \<Rightarrow> 's \<Rightarrow>
     (error + AddressResponse) \<times> 's" where
  "showAddressAndPubKey c send path hrp s =
     (case THORChainApp_serializePath c send path s of
        (Inl err, s1) \<Rightarrow> (Inl err, s1)
      | (Inr serializedPath, s1) \<Rightarrow>
          (case THORChainApp_serializeHRP c hrp of
             Inl err \<Rightarrow> (Inl err, s1)
           | Inr serializedHRP \<Rightarrow>
               (let data = serializedHRP @ serializedPath
                in case send \<lparr>cla = CLA c, ins = INS_GET_ADDR_SECP256K1 c,
                              p1 = SHOW_ADDRESS_IN_DEVICE c, p2 = 0, data = data,
                              statusList = Some [NoErrors c]\<rparr> s1 of
                     (Inl err, s2) \<Rightarrow> (Inl err, s2)
                   | (Inr response, s2) \<Rightarrow>
                       (let returnCode = returnCode_of response;
                            compressedPk = slice response 0 33;
                            bech32Address = utf8ToString c (slice response 33 (- 2))
                        in (Inr \<lparr>returnCode = returnCode,
                                   errorMessage = errorCodeToString c returnCode,
                                   bech32_address = bech32Address,
                                   compressed_pk = compressedPk\<rparr>, s2)))))"

text \<open>
  \<open>publicKeyv2\<close> and \<open>THORChainApp.publicKey\<close>; the promise of \<open>publicKeyv2\<close>
  is returned without \<open>await\<close>, so its failure leaves \<open>publicKey\<close> as it is. (\<open>pk_compressed_pk\<close>,
  \<open>pk_return_code\<close> and \<open>pk_error_message\<close> are the fields \<open>compressed_pk\<close>,
  \<open>return_code\<close> and \<open>error_message\<close> of the source.)
\<close>

record PublicKeyResponse =
  pk :: string
  pk_compressed_pk :: buffer
  pk_return_code :: number
  pk_error_message :: string

definition publicKeyv2 ::
  "common \<Rightarrow> 's transport \<Rightarrow> buffer \<Rightarrow> 's \<Rightarrow> (error + PublicKeyResponse) \<times> 's" where
  "publicKeyv2 c send dat s =
     (case send \<lparr>cla = CLA c, ins = INS_GET_ADDR_SECP256K1 c, p1 = 0, p2 = 0, data = dat,
                 statusList = Some [NoErrors c]\<rparr> s of
        (Inl err, s') \<Rightarrow> (Inl (ledgerErrorFromResponse c err), s')
      | (Inr response, s') \<Rightarrow>
          (let returnCode = returnCode_of response;
               compressedPk = slice response 0 33
           in (Inr \<lparr>pk = ''OBSOLETE PROPERTY'', pk_compressed_pk = compressedPk,
                     pk_return_code = returnCode,
                     pk_error_message = errorCodeToString c returnCode\<rparr>, s')))"

definition publicKey ::
  "common \<Rightarrow> 's transport \<Rightarrow> int list \<Rightarrow> 's \<Rightarrow> (error + PublicKeyResponse) \<times> 's" where
  "publicKey c send path s =
     (case THORChainApp_serializePath c send path s of
        (Inl err, s1) \<Rightarrow> (Inl (ledgerErrorFromResponse c err), s1)
      | (Inr serializedPath, s1) \<Rightarrow>
          (case getVersion c send s1 of
             (Inl err, s2) \<Rightarrow> (Inl (ledgerErrorFromResponse c err), s2)
           | (Inr version, s2) \<Rightarrow>
               if major version = Some 2
               then (case THORChainApp_serializeHRP c (Some ''thor'') of
                       Inl err \<Rightarrow> (Inl (ledgerErrorFromResponse c err), s2)
                     | Inr serializedHRP \<Rightarrow>
                         publicKeyv2 c send (serializedHRP @ serializedPath) s2)
               else (Inl (ledgerErrorFromResponse c
                            (LedgerError (Some (ExecutionError c))
                               (Some ''App Version is not supported''))), s2)))"

section \<open>A transport that records, and one that replays\<close>

text \<open>
  \<open>logged send\<close> behaves as \<open>send\<close> and appends every command to a log, so that a
  theorem can say what was sent; \<open>scripted\<close> answers from a list of prepared
  responses.
\<close>

definition logged :: "'s transport \<Rightarrow> ('s \<times> apdu list) transport" where
  "logged send a st = (case send a (fst st) of (r, s') \<Rightarrow> (r, (s', snd st @ [a])))"

definition scripted :: "((error + buffer) list) transport" where
  "scripted a rs = (case rs of [] \<Rightarrow> (Inl (TransportError 0), []) | r # rest \<Rightarrow> (r, rest))"

text \<open>Sample constants for the concrete runs below.\<close>

definition payload_code :: "payload_type \<Rightarrow> int" where
  "payload_code t = (case t of INIT \<Rightarrow> 0 | ADD \<Rightarrow> 1 | LAST \<Rightarrow> 2)"

definition common0 :: common where
  "common0 = \<lparr>CLA = 0x55, INS_GET_VERSION = 0x00, INS_GET_ADDR_SECP256K1 = 0x04,
              INS_SIGN_SECP256K1 = 0x02, ONLY_RETRIEVE = 0x00, SHOW_ADDRESS_IN_DEVICE = 0x01,
              PAYLOAD_TYPE = payload_code, NoErrors = 0x9000, DataIsInvalid = 0x6984,
              BadKeyHandle = 0x6a80, SignVerifyError = 0x6f01, ExecutionError = 0x6400,
              HPRInvalid = 15, AppDoesNotSeemToBeOpen = 0x6e00,
              errorCodeToString = (\<lambda>code. if code = Some 0x9000 then ''No errors'' else ''Unknown error''),
              ledgerErrorFromResponse = (\<lambda>e. e),
              utf8ToString = map (\<lambda>b. char_of (unat b))\<rparr>"

section \<open>Chunk markers\<close>

lemma signSendChunkv1_log:
  "snd (snd (signSendChunkv1 c (logged send) chunkIdx chunkNum chunk (s, log))) =
     log @ [\<lparr>cla = CLA c, ins = INS_SIGN_SECP256K1 c, p1 = chunkIdx, p2 = chunkNum,
             data = chunk,
             statusList = Some [NoErrors c, DataIsInvalid c, BadKeyHandle c]\<rparr>]"
proof -
  let ?a = "\<lparr>cla = CLA c, ins = INS_SIGN_SECP256K1 c, p1 = chunkIdx, p2 = chunkNum,
             data = chunk,
             statusList = Some [NoErrors c, DataIsInvalid c, BadKeyHandle c]\<rparr>"
  obtain r s' where rs: "send ?a s = (r, s')"
    by (cases "send ?a s")
  have l: "logged send ?a (s, log) = (r, (s', log @ [?a]))"
    using rs by (simp add: logged_def)
  show ?thesis
    unfolding signSendChunkv1_def l
    by (cases r) (simp_all add: Let_def)
qed

lemma signSendChunk_log:
  "snd (snd (signSendChunk c (logged send) chunkIdx chunkNum chunk (s, log))) =
     log @ [\<lparr>cla = CLA c, ins = INS_SIGN_SECP256K1 c,
             p1 = PAYLOAD_TYPE c
                    (if chunkIdx = chunkNum then LAST else if chunkIdx = 1 then INIT else ADD),
             p2 = 0, data = chunk,
             statusList = Some [NoErrors c, DataIsInvalid c, BadKeyHandle c,
                                SignVerifyError c]\<rparr>]"
proof -
  let ?a = "\<lparr>cla = CLA c, ins = INS_SIGN_SECP256K1 c,
             p1 = PAYLOAD_TYPE c
                    (if chunkIdx = chunkNum then LAST else if chunkIdx = 1 then INIT else ADD),
             p2 = 0, data = chunk,
             statusList = Some [NoErrors c, DataIsInvalid c, BadKeyHandle c,
                                SignVerifyError c]\<rparr>"
  obtain r s' where rs: "send ?a s = (r, s')"
    by (cases "send ?a s")
  have l: "logged send ?a (s, log) = (r, (s', log @ [?a]))"
    using rs by (simp add: logged_def)
  have m: "(let payloadType = ADD;
          payloadType = (if chunkIdx = 1 then INIT else payloadType);
          payloadType = (if chunkIdx = chunkNum then LAST else payloadType) in f payloadType)
      = f (if chunkIdx = chunkNum then LAST else if chunkIdx = 1 then INIT else ADD)"
    for f :: "payload_type \<Rightarrow> 'x"
    by (simp add: Let_def)
  show ?thesis
    unfolding signSendChunk_def m l
    by (cases r) (simp_all add: Let_def)
qed

text \<open>
  C1 (as amended). The command that carries a chunk has the marker LAST when
  \<open>chunkIdx = chunkNum\<close>, INIT when \<open>chunkIdx = 1\<close> and \<open>chunkNum \<noteq> 1\<close>, and ADD
  otherwise: the LAST test runs after the INIT test and overrides it, so the only chunk
  of a one-chunk set goes out as LAST. This holds for \<open>signSendChunkv2\<close> and for
  \<open>signSendChunk\<close> of \<open>helper.ts\<close>, whatever the transport answers.
\<close>

theorem chunk_marker_sent:
  "snd (snd (signSendChunkv2 c (logged send) chunkIdx chunkNum chunk (s, log))) =
     log @ [\<lparr>cla = CLA c, ins = INS_SIGN_SECP256K1 c,
             p1 = PAYLOAD_TYPE c
                    (if chunkIdx = chunkNum then LAST else if chunkIdx = 1 then INIT else ADD),
             p2 = 0, data = chunk,
             statusList = Some [NoErrors c, DataIsInvalid c, BadKeyHandle c]\<rparr>] \<and>
   snd (snd (signSendChunk c (logged send) chunkIdx chunkNum chunk (s, log))) =
     log @ [\<lparr>cla = CLA c, ins = INS_SIGN_SECP256K1 c,
             p1 = PAYLOAD_TYPE c
                    (if chunkIdx = chunkNum then LAST else if chunkIdx = 1 then INIT else ADD),
             p2 = 0, data = chunk,
             statusList = Some [NoErrors c, DataIsInvalid c, BadKeyHandle c,
                                SignVerifyError c]\<rparr>]"
  by (simp add: signSendChunkv2_def signSendChunkv1_log signSendChunk_log)

text \<open>In a set of five chunks the first is INIT, the third ADD and the fifth LAST.\<close>

theorem chunk_marker_sent_witness:
  "map p1 (snd (snd (signSendChunkv2 common0 (logged scripted) 1 5 [] ([], [])))) =
     [payload_code INIT] \<and>
   map p1 (snd (snd (signSendChunkv2 common0 (logged scripted) 3 5 [] ([], [])))) =
     [payload_code ADD] \<and>
   map p1 (snd (snd (signSendChunkv2 common0 (logged scripted) 5 5 [] ([], [])))) =
     [payload_code LAST] \<and>
   map p1 (snd (snd (signSendChunk common0 (logged scripted) 1 5 [] ([], [])))) =
     [payload_code INIT] \<and>
   map p1 (snd (snd (signSendChunk common0 (logged scripted) 5 5 [] ([], [])))) =
     [payload_code LAST]"
  using chunk_marker_sent [of common0 scripted 1 5 "[]" "[]" "[]"]
    chunk_marker_sent [of common0 scripted 3 5 "[]" "[]" "[]"]
    chunk_marker_sent [of common0 scripted 5 5 "[]" "[]" "[]"]
  by (simp add: common0_def)

text \<open>
  The claim as stated fails: with \<open>chunkIdx = 1\<close> and \<open>chunkNum = 1\<close> both functions
  send LAST, which is not INIT.
\<close>

theorem single_chunk_marker_counterexample:
  "map p1 (snd (snd (signSendChunkv2 common0 (logged scripted) 1 1 [] ([], [])))) =
     [payload_code LAST] \<and>
   map p1 (snd (snd (signSendChunk common0 (logged scripted) 1 1 [] ([], [])))) =
     [payload_code LAST] \<and>
   payload_code LAST \<noteq> payload_code INIT"
  by (simp add: signSendChunkv2_def signSendChunkv1_def signSendChunk_def logged_def scripted_def
      common0_def payload_code_def Let_def)

section \<open>The serialized path\<close>


lemma le32_bytes:
  fixes v :: int
  assumes "0 \<le> v" "v < 2 ^ 32"
  shows "uint (word_of_int v :: byte) + uint (word_of_int (v div 2 ^ 8) :: byte) * 2 ^ 8 +
         uint (word_of_int (v div 2 ^ 16) :: byte) * 2 ^ 16 +
         uint (word_of_int (v div 2 ^ 24) :: byte) * 2 ^ 24 = v"
proof -
  define q1 where "q1 = v div 256"
  define q2 where "q2 = q1 div 256"
  define q3 where "q3 = q2 div 256"
  have e2: "v div 65536 = q2"
    unfolding q2_def q1_def by (simp add: zdiv_zmult2_eq [symmetric])
  have e3: "v div 16777216 = q3"
    unfolding q3_def q2_def q1_def by (simp add: zdiv_zmult2_eq [symmetric])
  have s3: "q3 mod 256 = q3"
    using assms e3 by simp
  have a: "v = q1 * 256 + v mod 256" unfolding q1_def by simp
  have b: "q1 = q2 * 256 + q1 mod 256" unfolding q2_def by simp
  have c: "q2 = q3 * 256 + q2 mod 256" unfolding q3_def by simp
  have "v mod 256 + (q1 mod 256) * 256 + (q2 mod 256) * 65536 + q3 * 16777216 = v"
    using a b c by linarith
  then show ?thesis
    using s3 by (simp add: uint_word_of_int e2 e3 q1_def [symmetric])
qed


lemma writeUInt32LE_ok:
  "0 \<le> v \<Longrightarrow> v < 2 ^ 32 \<Longrightarrow>
   writeUInt32LE buf v offset =
     Inr (buf[offset := word_of_int v,
              offset + 1 := word_of_int (v div 2 ^ 8),
              offset + 2 := word_of_int (v div 2 ^ 16),
              offset + 3 := word_of_int (v div 2 ^ 24)])"
  by (simp add: writeUInt32LE_def)

lemma read_after_write:
  assumes "0 \<le> v" "v < 2 ^ 32" "offset + 3 < length buf"
  shows "readUInt32LE (buf[offset := word_of_int v,
              offset + 1 := word_of_int (v div 2 ^ 8),
              offset + 2 := word_of_int (v div 2 ^ 16),
              offset + 3 := word_of_int (v div 2 ^ 24)]) offset = v"
proof -
  let ?b = "buf[offset := word_of_int v,
              offset + 1 := word_of_int (v div 2 ^ 8),
              offset + 2 := word_of_int (v div 2 ^ 16),
              offset + 3 := word_of_int (v div 2 ^ 24)]"
  have 0: "?b ! offset = word_of_int v" using assms(3) by simp
  have 1: "?b ! (offset + 1) = word_of_int (v div 2 ^ 8)" using assms(3) by simp
  have 2: "?b ! (offset + 2) = word_of_int (v div 2 ^ 16)" using assms(3) by simp
  have 3: "?b ! (offset + 3) = word_of_int (v div 2 ^ 24)" using assms(3) by simp
  show ?thesis
    unfolding readUInt32LE_def 0 1 2 3 by (rule le32_bytes [OF assms(1,2)])
qed

lemma nth_upd4_other:
  "k \<noteq> i \<Longrightarrow> k \<noteq> j \<Longrightarrow> k \<noteq> l \<Longrightarrow> k \<noteq> m \<Longrightarrow>
   buf[i := a, j := b, l := c, m := d] ! k = buf ! k"
  by simp

lemma read_other_write:
  assumes "offset' + 4 \<le> offset \<or> offset + 4 \<le> offset'"
  shows "readUInt32LE (buf[offset := a, offset + 1 := b, offset + 2 := c, offset + 3 := d]) offset'
         = readUInt32LE buf offset'"
proof -
  let ?b = "buf[offset := a, offset + 1 := b, offset + 2 := c, offset + 3 := d]"
  have 0: "?b ! offset' = buf ! offset'"
    using assms by (intro nth_upd4_other) auto
  have 1: "?b ! (offset' + 1) = buf ! (offset' + 1)"
    using assms by (intro nth_upd4_other) auto
  have 2: "?b ! (offset' + 2) = buf ! (offset' + 2)"
    using assms by (intro nth_upd4_other) auto
  have 3: "?b ! (offset' + 3) = buf ! (offset' + 3)"
    using assms by (intro nth_upd4_other) auto
  show ?thesis
    unfolding readUInt32LE_def 0 1 2 3 ..
qed

lemma writeUInt32LE_step:
  assumes "0 \<le> v" "v < 2 ^ 32" "offset + 3 < length buf"
  obtains buf' where "writeUInt32LE buf v offset = Inr buf'" "length buf' = length buf"
    "readUInt32LE buf' offset = v"
    "\<And>offset'. offset' + 4 \<le> offset \<or> offset + 4 \<le> offset' \<Longrightarrow>
       readUInt32LE buf' offset' = readUInt32LE buf offset'"
proof
  let ?b = "buf[offset := word_of_int v,
              offset + 1 := word_of_int (v div 2 ^ 8),
              offset + 2 := word_of_int (v div 2 ^ 16),
              offset + 3 := word_of_int (v div 2 ^ 24)]"
  show "writeUInt32LE buf v offset = Inr ?b"
    by (rule writeUInt32LE_ok [OF assms(1,2)])
  show "length ?b = length buf" by simp
  show "readUInt32LE ?b offset = v"
    by (rule read_after_write [OF assms])
  show "readUInt32LE ?b offset' = readUInt32LE buf offset'"
    if "offset' + 4 \<le> offset \<or> offset + 4 \<le> offset'" for offset'
    by (rule read_other_write [OF that])
qed

lemma serialize_words:
  assumes "0 \<le> a" "a < 2 ^ 31" "0 \<le> b" "b < 2 ^ 31" "0 \<le> c" "c < 2 ^ 31"
    "0 \<le> d" "d < 2 ^ 32" "0 \<le> e" "e < 2 ^ 32"
  shows "\<exists>buf. bind_r (writeUInt32LE (replicate 20 0) (0x80000000 + a) 0) (\<lambda>buf.
           bind_r (writeUInt32LE buf (0x80000000 + b) 4) (\<lambda>buf.
           bind_r (writeUInt32LE buf (0x80000000 + c) 8) (\<lambda>buf.
           bind_r (writeUInt32LE buf d 12) (\<lambda>buf.
           writeUInt32LE buf e 16)))) = Inr buf \<and> length buf = 20 \<and>
           readUInt32LE buf 0 = 0x80000000 + a \<and>
           readUInt32LE buf 4 = 0x80000000 + b \<and>
           readUInt32LE buf 8 = 0x80000000 + c \<and>
           readUInt32LE buf 12 = d \<and>
           readUInt32LE buf 16 = e"
proof -
  obtain b1 where b1: "writeUInt32LE (replicate 20 0) (0x80000000 + a) 0 = Inr b1"
      "length b1 = 20" "readUInt32LE b1 0 = 0x80000000 + a"
    using assms(1,2) by (auto intro: writeUInt32LE_step [of "0x80000000 + a" 0 "replicate 20 0"])
  obtain b2 where b2: "writeUInt32LE b1 (0x80000000 + b) 4 = Inr b2"
      "length b2 = 20" "readUInt32LE b2 4 = 0x80000000 + b" "readUInt32LE b2 0 = readUInt32LE b1 0"
    using assms(3,4) b1(2) by (auto intro: writeUInt32LE_step [of "0x80000000 + b" 4 b1])
  obtain b3 where b3: "writeUInt32LE b2 (0x80000000 + c) 8 = Inr b3"
      "length b3 = 20" "readUInt32LE b3 8 = 0x80000000 + c" "readUInt32LE b3 0 = readUInt32LE b2 0"
      "readUInt32LE b3 4 = readUInt32LE b2 4"
    using assms(5,6) b2(2) by (auto intro: writeUInt32LE_step [of "0x80000000 + c" 8 b2])
  obtain b4 where b4: "writeUInt32LE b3 d 12 = Inr b4"
      "length b4 = 20" "readUInt32LE b4 12 = d" "readUInt32LE b4 0 = readUInt32LE b3 0"
      "readUInt32LE b4 4 = readUInt32LE b3 4" "readUInt32LE b4 8 = readUInt32LE b3 8"
    using assms(7,8) b3(2) by (auto intro: writeUInt32LE_step [of d 12 b3])
  obtain b5 where b5: "writeUInt32LE b4 e 16 = Inr b5"
      "length b5 = 20" "readUInt32LE b5 16 = e" "readUInt32LE b5 0 = readUInt32LE b4 0"
      "readUInt32LE b5 4 = readUInt32LE b4 4" "readUInt32LE b5 8 = readUInt32LE b4 8"
      "readUInt32LE b5 12 = readUInt32LE b4 12"
    using assms(9,10) b4(2) by (auto intro: writeUInt32LE_step [of e 16 b4])
  show ?thesis
    by (simp add: bind_r_def b1 b2 b3 b4 b5)
qed


text \<open>
  C5 (as amended). \<open>serializePathv2\<close> and \<open>serializePath\<close> fail with the error
  \<open>Invalid path.\<close> when the path does not have five entries. For a five-entry path
  whose first three entries lie in \<open>0..0x7FFFFFFF\<close> and whose last two lie in
  \<open>0..0xFFFFFFFF\<close> they produce exactly 20 bytes: five little-endian 32-bit words,
  words 0-2 equal to \<open>0x80000000 + path[i]\<close> (so bit 31 is set) and words 3-4 equal to
  \<open>path[3]\<close> and \<open>path[4]\<close>.
\<close>

theorem serializePath_layout:
  "(length path \<noteq> 5 \<longrightarrow>
      serializePathv2 path = Inl (Error ''Invalid path.'') \<and>
      serializePath path = Inl (Error ''Invalid path.'')) \<and>
   (0 \<le> a \<and> a < 2 ^ 31 \<and> 0 \<le> b \<and> b < 2 ^ 31 \<and> 0 \<le> c \<and> c < 2 ^ 31 \<and>
    0 \<le> d \<and> d < 2 ^ 32 \<and> 0 \<le> e \<and> e < 2 ^ 32 \<longrightarrow>
      (\<exists>buf. serializePathv2 [a, b, c, d, e] = Inr buf \<and>
             serializePath [a, b, c, d, e] = Inr buf \<and>
             length buf = 20 \<and>
             readUInt32LE buf 0 = 0x80000000 + a \<and>
             readUInt32LE buf 4 = 0x80000000 + b \<and>
             readUInt32LE buf 8 = 0x80000000 + c \<and>
             readUInt32LE buf 12 = d \<and>
             readUInt32LE buf 16 = e \<and>
             bit (readUInt32LE buf 0) 31 \<and> bit (readUInt32LE buf 4) 31 \<and>
             bit (readUInt32LE buf 8) 31))"
proof (intro conjI impI)
  assume "length path \<noteq> 5"
  then show "serializePathv2 path = Inl (Error ''Invalid path.'')"
    and "serializePath path = Inl (Error ''Invalid path.'')"
    by (simp_all add: serializePathv2_def serializePath_def)
next
  assume r: "0 \<le> a \<and> a < 2 ^ 31 \<and> 0 \<le> b \<and> b < 2 ^ 31 \<and> 0 \<le> c \<and> c < 2 ^ 31 \<and>
    0 \<le> d \<and> d < 2 ^ 32 \<and> 0 \<le> e \<and> e < 2 ^ 32"
  then obtain buf where buf:
      "bind_r (writeUInt32LE (replicate 20 0) (0x80000000 + a) 0) (\<lambda>buf.
       bind_r (writeUInt32LE buf (0x80000000 + b) 4) (\<lambda>buf.
       bind_r (writeUInt32LE buf (0x80000000 + c) 8) (\<lambda>buf.
       bind_r (writeUInt32LE buf d 12) (\<lambda>buf.
       writeUInt32LE buf e 16)))) = Inr buf"
      "length buf = 20"
      "readUInt32LE buf 0 = 0x80000000 + a" "readUInt32LE buf 4 = 0x80000000 + b"
      "readUInt32LE buf 8 = 0x80000000 + c" "readUInt32LE buf 12 = d" "readUInt32LE buf 16 = e"
    using serialize_words [of a b c d e] by blast
  have hi: "bit (0x80000000 + x :: int) 31" if "0 \<le> x" "x < 2 ^ 31" for x
  proof -
    have "x div 2147483648 = 0"
      using that by simp
    then have "(2147483648 + x) div 2147483648 = 1"
      by (simp add: div_add_self1)
    then show ?thesis
      by (simp add: bit_iff_odd)
  qed
  have 1: "serializePathv2 [a, b, c, d, e] = Inr buf"
    using buf(1) by (simp add: serializePathv2_def)
  have 2: "serializePath [a, b, c, d, e] = Inr buf"
    using buf(1) by (simp add: serializePath_def)
  show "\<exists>buf. serializePathv2 [a, b, c, d, e] = Inr buf \<and>
             serializePath [a, b, c, d, e] = Inr buf \<and>
             length buf = 20 \<and>
             readUInt32LE buf 0 = 0x80000000 + a \<and>
             readUInt32LE buf 4 = 0x80000000 + b \<and>
             readUInt32LE buf 8 = 0x80000000 + c \<and>
             readUInt32LE buf 12 = d \<and>
             readUInt32LE buf 16 = e \<and>
             bit (readUInt32LE buf 0) 31 \<and> bit (readUInt32LE buf 4) 31 \<and>
             bit (readUInt32LE buf 8) 31"
    using 1 2 buf(2-) r hi by (intro exI [of _ buf]) simp
qed

text \<open>The path \<open>[44, 931, 0, 0, 0]\<close>, and a path of two entries.\<close>

theorem serializePath_layout_witness:
  "serializePathv2 [1, 2] = Inl (Error ''Invalid path.'') \<and>
   serializePath [1, 2] = Inl (Error ''Invalid path.'') \<and>
   (\<exists>buf. serializePathv2 [44, 931, 0, 0, 0] = Inr buf \<and>
          serializePath [44, 931, 0, 0, 0] = Inr buf \<and> length buf = 20 \<and>
          readUInt32LE buf 0 = 0x8000002c \<and> readUInt32LE buf 4 = 0x800003a3 \<and>
          readUInt32LE buf 8 = 0x80000000 \<and> readUInt32LE buf 12 = 0 \<and>
          readUInt32LE buf 16 = 0)"
  using serializePath_layout [where path = "[1, 2]" and a = 44 and b = 931 and c = 0 and d = 0
      and e = 0]
  by auto

text \<open>
  The claim as stated fails: a first entry that already has bit 31 set makes
  \<open>0x80000000 + path[0]\<close> leave the range of \<open>writeUInt32LE\<close>, and no bytes are
  produced.
\<close>

theorem serializePath_range_counterexample:
  "serializePathv2 [0x80000000, 0, 0, 0, 0] = Inl RangeError \<and>
   serializePath [0x80000000, 0, 0, 0, 0] = Inl RangeError"
  by (simp add: serializePathv2_def serializePath_def writeUInt32LE_def bind_r_def)

section \<open>The serialized prefix\<close>


lemma store_length: "length (store buf offset bs) = length buf"
  by (induction bs arbitrary: buf offset) simp_all

lemma store_nth_before: "k < offset \<Longrightarrow> store buf offset bs ! k = buf ! k"
  by (induction bs arbitrary: buf offset) simp_all

lemma Buffer_write_length: "length (Buffer_write buf h offset) = length buf"
  by (induction h arbitrary: buf offset) (simp_all add: store_length)

lemma utf8_nonempty: "0 < length (utf8 ch)"
  by (simp add: utf8_def Let_def)

lemma Buffer_write_nth_before: "k < offset \<Longrightarrow> Buffer_write buf h offset ! k = buf ! k"
proof (induction h arbitrary: buf offset)
  case Nil
  then show ?case by simp
next
  case (Cons ch rest)
  have "Buffer_write (store buf offset (utf8 ch)) rest (offset + length (utf8 ch)) ! k =
        store buf offset (utf8 ch) ! k"
    using Cons.prems by (intro Cons.IH) simp
  then show ?case
    using Cons.prems by (simp add: store_nth_before)
qed

lemma utf8_ascii: "(of_char ch :: nat) < 128 \<Longrightarrow> utf8 ch = [of_char ch]"
  by (simp add: utf8_def Let_def of_nat_of_char)

lemma Buffer_write_ascii:
  "\<forall>ch\<in>set h. (of_char ch :: nat) < 128 \<Longrightarrow> offset + length h \<le> length buf \<Longrightarrow>
   Buffer_write buf h offset = take offset buf @ map of_char h @ drop (offset + length h) buf"
proof (induction h arbitrary: buf offset)
  case Nil
  then show ?case by simp
next
  case (Cons ch rest)
  have u: "utf8 ch = [of_char ch]"
    using Cons.prems(1) by (simp add: utf8_ascii)
  have "Buffer_write (buf[offset := of_char ch]) rest (Suc offset) =
        take (Suc offset) (buf[offset := of_char ch]) @ map of_char rest @
        drop (Suc offset + length rest) (buf[offset := of_char ch])"
    using Cons.prems by (intro Cons.IH) simp_all
  moreover have "take (Suc offset) (buf[offset := of_char ch]) = take offset buf @ [of_char ch]"
    using Cons.prems(2) by (simp add: take_Suc_conv_app_nth)
  ultimately show ?case
    using Cons.prems(2) by (simp add: u)
qed

lemma serializeHRP_same: "serializeHRP c hrp = THORChainApp_serializeHRP c hrp"
  by (auto simp: serializeHRP_def THORChainApp_serializeHRP_def split: option.splits)

lemma HPRInvalid_common0: "HPRInvalid common0 = 15"
  by (simp add: common0_def)

text \<open>
  C6. A prefix that is \<open>null\<close> or \<open>undefined\<close>, or whose length is outside
  \<open>[3, 83]\<close>, makes \<open>THORChainApp.serializeHRP\<close> and \<open>serializeHRP\<close> raise
  \<open>HPRInvalid\<close>. For a prefix of length \<open>len\<close> in \<open>[3, 83]\<close> both produce the
  same \<open>1 + len\<close> bytes, byte 0 is \<open>len\<close>, and for an ASCII prefix the remaining
  bytes are the characters of the prefix.
\<close>

theorem serializeHRP_layout:
  "(hrp = None \<or> (\<exists>h. hrp = Some h \<and> (length h < 3 \<or> 83 < length h)) \<longrightarrow>
      THORChainApp_serializeHRP c hrp = Inl (LedgerError (Some (HPRInvalid c)) None) \<and>
      serializeHRP c hrp = Inl (LedgerError (Some (HPRInvalid c)) None)) \<and>
   (3 \<le> length h \<and> length h \<le> 83 \<longrightarrow>
      (\<exists>buf. THORChainApp_serializeHRP c (Some h) = Inr buf \<and>
             serializeHRP c (Some h) = Inr buf \<and>
             length buf = 1 + length h \<and>
             unat (buf ! 0) = length h \<and>
             ((\<forall>ch\<in>set h. (of_char ch :: nat) < 128) \<longrightarrow> tl buf = map of_char h)))"
proof (intro conjI impI)
  assume "hrp = None \<or> (\<exists>h. hrp = Some h \<and> (length h < 3 \<or> 83 < length h))"
  then show "THORChainApp_serializeHRP c hrp = Inl (LedgerError (Some (HPRInvalid c)) None)"
    by (auto simp: THORChainApp_serializeHRP_def)
  then show "serializeHRP c hrp = Inl (LedgerError (Some (HPRInvalid c)) None)"
    by (simp add: serializeHRP_same)
next
  assume r: "3 \<le> length h \<and> length h \<le> 83"
  let ?b0 = "(replicate (1 + length h) 0 :: buffer)[0 := word_of_int (int (length h))]"
  let ?buf = "Buffer_write ?b0 h 1"
  have 1: "THORChainApp_serializeHRP c (Some h) = Inr ?buf"
    using r by (simp add: THORChainApp_serializeHRP_def writeUInt8_def bind_r_def)
  have 2: "length ?buf = 1 + length h"
    by (simp add: Buffer_write_length)
  have "?buf ! 0 = word_of_int (int (length h))"
    by (simp add: Buffer_write_nth_before)
  then have 3: "unat (?buf ! 0) = length h"
    using r by (simp add: unat_of_nat)
  have 4: "tl ?buf = map of_char h" if "\<forall>ch\<in>set h. (of_char ch :: nat) < 128"
  proof -
    have "?buf = take 1 ?b0 @ map of_char h @ drop (1 + length h) ?b0"
      using that by (intro Buffer_write_ascii) simp_all
    then show ?thesis by simp
  qed
  show "\<exists>buf. THORChainApp_serializeHRP c (Some h) = Inr buf \<and>
             serializeHRP c (Some h) = Inr buf \<and>
             length buf = 1 + length h \<and>
             unat (buf ! 0) = length h \<and>
             ((\<forall>ch\<in>set h. (of_char ch :: nat) < 128) \<longrightarrow> tl buf = map of_char h)"
    using 1 2 3 4 by (intro exI [of _ ?buf]) (simp add: serializeHRP_same)
qed

text \<open>No prefix, the prefix \<open>th\<close>, and the prefix \<open>thor\<close>.\<close>

theorem serializeHRP_layout_witness:
  "THORChainApp_serializeHRP common0 None = Inl (LedgerError (Some 15) None) \<and>
   serializeHRP common0 (Some ''th'') = Inl (LedgerError (Some 15) None) \<and>
   (\<exists>buf. THORChainApp_serializeHRP common0 (Some ''thor'') = Inr buf \<and>
          serializeHRP common0 (Some ''thor'') = Inr buf \<and> length buf = 5 \<and>
          unat (buf ! 0) = 4 \<and> tl buf = [0x74, 0x68, 0x6f, 0x72])"
  using serializeHRP_layout [where hrp = None and h = "''thor''" and c = common0]
    serializeHRP_layout [where hrp = "Some ''th''" and h = "''thor''" and c = common0]
  by (simp add: HPRInvalid_common0 eval_nat_numeral)

section \<open>Splitting the message into chunks\<close>


lemma slice_chunk:
  "i < length buf \<Longrightarrow> slice buf (int i) (int i + int n) = take n (drop i buf)"
  by (auto simp: slice_def adjustOffset_def Let_def min_def)

lemma signGetChunks_loop_step:
  "i < length buffer \<Longrightarrow>
   signGetChunks_loop buffer i chunks =
     signGetChunks_loop buffer (i + CHUNK_SIZE) (chunks @ [take CHUNK_SIZE (drop i buffer)])"
  by (subst signGetChunks_loop.simps) (simp add: Let_def slice_chunk)

lemma signGetChunks_loop_done:
  "\<not> i < length buffer \<Longrightarrow> signGetChunks_loop buffer i chunks = chunks"
  by (subst signGetChunks_loop.simps) simp

lemma ceil_step:
  fixes m :: nat
  assumes "0 < m"
  shows "(m + 149) div 150 = Suc ((m - 150 + 149) div 150)"
proof (cases "m < 150")
  case True
  then have "(m + 149) div 150 = 1"
    using assms by (intro div_nat_eqI) simp_all
  with True show ?thesis by simp
next
  case False
  then have "m + 149 = (m - 150 + 149) + 150" by simp
  then have "(m + 149) div 150 = ((m - 150 + 149) + 150) div 150" by simp
  also have "\<dots> = Suc ((m - 150 + 149) div 150)" by (simp only: div_add_self2)
  finally show ?thesis .
qed

text \<open>The chunks of the bytes from position \<open>i\<close> on, as the loop leaves them.\<close>

lemma signGetChunks_loop_chunks:
  "\<exists>cs. signGetChunks_loop buffer i chunks = chunks @ cs \<and>
         length cs = (length buffer - i + (CHUNK_SIZE - 1)) div CHUNK_SIZE \<and>
         (\<forall>k<length cs. length (cs ! k) = min CHUNK_SIZE (length buffer - i - CHUNK_SIZE * k)) \<and>
         concat cs = drop i buffer"
proof (induction "length buffer - i" arbitrary: i chunks rule: less_induct)
  case less
  show ?case
  proof (cases "i < length buffer")
    case False
    then show ?thesis
      by (simp add: signGetChunks_loop_done CHUNK_SIZE_def)
  next
    case True
    let ?p = "take CHUNK_SIZE (drop i buffer)"
    have "length buffer - (i + CHUNK_SIZE) < length buffer - i"
      using True by (simp add: CHUNK_SIZE_def)
    from less [OF this, of "chunks @ [?p]"]
    obtain cs where cs: "signGetChunks_loop buffer (i + CHUNK_SIZE) (chunks @ [?p]) = (chunks @ [?p]) @ cs"
      "length cs = (length buffer - (i + CHUNK_SIZE) + (CHUNK_SIZE - 1)) div CHUNK_SIZE"
      "\<forall>k<length cs. length (cs ! k) = min CHUNK_SIZE (length buffer - (i + CHUNK_SIZE) - CHUNK_SIZE * k)"
      "concat cs = drop (i + CHUNK_SIZE) buffer"
      by blast
    have 1: "signGetChunks_loop buffer i chunks = chunks @ (?p # cs)"
      using True cs(1) by (simp add: signGetChunks_loop_step)
    have 2: "length (?p # cs) = (length buffer - i + (CHUNK_SIZE - 1)) div CHUNK_SIZE"
      using True cs(2) ceil_step [of "length buffer - i"] by (simp add: CHUNK_SIZE_def)
    have 3: "length ((?p # cs) ! k) = min CHUNK_SIZE (length buffer - i - CHUNK_SIZE * k)"
      if "k < length (?p # cs)" for k
    proof (cases k)
      case 0
      then show ?thesis by simp
    next
      case (Suc j)
      then have "j < length cs" using that by simp
      with cs(3) have "length (cs ! j) = min CHUNK_SIZE (length buffer - (i + CHUNK_SIZE) - CHUNK_SIZE * j)"
        by blast
      then show ?thesis
        using Suc by (simp add: algebra_simps)
    qed
    have "concat (?p # cs) = take CHUNK_SIZE (drop i buffer) @ drop CHUNK_SIZE (drop i buffer)"
      using cs(4) by (simp add: add.commute)
    then have 4: "concat (?p # cs) = drop i buffer"
      by (simp only: append_take_drop_id)
    show ?thesis
      using 1 2 3 4 by blast
  qed
qed


text \<open>
  C2. When the path serializes, \<open>signGetChunks\<close> returns the serialized path as
  chunk 0 followed by \<open>ceil(L / 150)\<close> payload chunks for a message of \<open>L\<close> bytes;
  payload chunk \<open>k\<close> has \<open>min 150 (L - 150 k)\<close> bytes, so every chunk has at most 150
  bytes and only the last can be shorter, and the payload chunks concatenated are the
  message. When the path does not serialize, \<open>signGetChunks\<close> fails with the same
  error.
\<close>

theorem signGetChunks_chunks:
  "(THORChainApp_serializePath c send path s = (Inl err, s') \<longrightarrow>
      THORChainApp_signGetChunks c send path message s = (Inl err, s')) \<and>
   (THORChainApp_serializePath c send path s = (Inr serializedPath, s') \<longrightarrow>
      (\<exists>cs. THORChainApp_signGetChunks c send path message s =
               (Inr (serializedPath # cs), s') \<and>
            length cs = (length message + 149) div 150 \<and>
            (\<forall>k<length cs. length (cs ! k) = min 150 (length message - 150 * k)) \<and>
            (\<forall>chunk\<in>set cs. length chunk \<le> 150) \<and>
            concat cs = message))"
proof (intro conjI impI)
  assume "THORChainApp_serializePath c send path s = (Inl err, s')"
  then show "THORChainApp_signGetChunks c send path message s = (Inl err, s')"
    by (simp add: THORChainApp_signGetChunks_def)
next
  assume sp: "THORChainApp_serializePath c send path s = (Inr serializedPath, s')"
  obtain cs where cs:
      "signGetChunks_loop message 0 [serializedPath] = [serializedPath] @ cs"
      "length cs = (length message - 0 + (CHUNK_SIZE - 1)) div CHUNK_SIZE"
      "\<forall>k<length cs. length (cs ! k) = min CHUNK_SIZE (length message - 0 - CHUNK_SIZE * k)"
      "concat cs = drop 0 message"
    using signGetChunks_loop_chunks [of message 0 "[serializedPath]"] by blast
  have 1: "THORChainApp_signGetChunks c send path message s = (Inr (serializedPath # cs), s')"
    by (simp add: THORChainApp_signGetChunks_def sp cs(1))
  have 2: "length cs = (length message + 149) div 150"
    using cs(2) by (simp add: CHUNK_SIZE_def)
  have 3: "\<forall>k<length cs. length (cs ! k) = min 150 (length message - 150 * k)"
    using cs(3) by (simp add: CHUNK_SIZE_def)
  have 4: "\<forall>chunk\<in>set cs. length chunk \<le> 150"
  proof
    fix chunk
    assume "chunk \<in> set cs"
    then obtain k where k: "k < length cs" "cs ! k = chunk"
      unfolding in_set_conv_nth by blast
    from 3 k(1) have "length (cs ! k) = min 150 (length message - 150 * k)"
      by blast
    then show "length chunk \<le> 150"
      unfolding k(2) by simp
  qed
  have 5: "concat cs = message"
    using cs(4) by simp
  show "\<exists>cs. THORChainApp_signGetChunks c send path message s =
               (Inr (serializedPath # cs), s') \<and>
            length cs = (length message + 149) div 150 \<and>
            (\<forall>k<length cs. length (cs ! k) = min 150 (length message - 150 * k)) \<and>
            (\<forall>chunk\<in>set cs. length chunk \<le> 150) \<and>
            concat cs = message"
    using 1 2 3 4 5 by blast
qed

text \<open>
  A device of major version 2, the path \<open>[44, 931, 0, 0, 0]\<close> and a message of 400
  bytes: three payload chunks.
\<close>

theorem signGetChunks_chunks_witness:
  "\<exists>cs. THORChainApp_signGetChunks common0 scripted [44, 931, 0, 0, 0] (replicate 400 1)
           [Inr [0, 2, 0, 0, 0, 0x90, 0]] =
           (Inr ([0x2c, 0, 0, 0x80, 0xa3, 0x03, 0, 0x80, 0, 0, 0, 0x80, 0, 0, 0, 0, 0, 0, 0, 0]
                 # cs), []) \<and>
        length cs = 3 \<and> concat cs = replicate 400 1"
proof -
  let ?sp = "[0x2c, 0, 0, 0x80, 0xa3, 0x03, 0, 0x80, 0, 0, 0, 0x80, 0, 0, 0, 0, 0, 0, 0, 0] :: buffer"
  let ?m = "replicate 400 1 :: buffer"
  have sp: "THORChainApp_serializePath common0 scripted [44, 931, 0, 0, 0]
              [Inr [0, 2, 0, 0, 0, 0x90, 0]] = (Inr ?sp, [])"
    by code_simp
  have "THORChainApp_serializePath common0 scripted [44, 931, 0, 0, 0]
              [Inr [0, 2, 0, 0, 0, 0x90, 0]] = (Inr ?sp, []) \<longrightarrow>
      (\<exists>cs. THORChainApp_signGetChunks common0 scripted [44, 931, 0, 0, 0] ?m
               [Inr [0, 2, 0, 0, 0, 0x90, 0]] = (Inr (?sp # cs), []) \<and>
            length cs = (length ?m + 149) div 150 \<and>
            (\<forall>k<length cs. length (cs ! k) = min 150 (length ?m - 150 * k)) \<and>
            (\<forall>chunk\<in>set cs. length chunk \<le> 150) \<and>
            concat cs = ?m)"
    by (rule signGetChunks_chunks [THEN conjunct2])
  with sp obtain cs where cs:
    "THORChainApp_signGetChunks common0 scripted [44, 931, 0, 0, 0] ?m
               [Inr [0, 2, 0, 0, 0, 0x90, 0]] = (Inr (?sp # cs), [])"
    "length cs = (length ?m + 149) div 150" "concat cs = ?m"
    by blast
  from cs(2) have "length cs = 3" by simp
  with cs(1,3) show ?thesis by blast
qed

section \<open>The version response\<close>

lemma uint_shl:
  fixes x :: byte
  assumes "k \<le> 24"
  shows "uint (push_bit k (ucast x :: 32 word)) = uint x * 2 ^ k"
proof -
  have x8: "uint x < 2 ^ 8"
    using uint_bounded [of x] by simp
  then have "uint x * 2 ^ k < 2 ^ 8 * 2 ^ k"
    by simp
  also have "\<dots> = 2 ^ (8 + k)"
    by (simp add: power_add)
  also have "\<dots> \<le> (2 :: int) ^ 32"
    using assms by (intro power_increasing) simp_all
  finally have b: "uint x * 2 ^ k < 2 ^ 32" .
  have u: "uint (ucast x :: 32 word) = uint x"
    by (simp add: unsigned_ucast_eq take_bit_int_eq_self_iff) (use x8 in simp)
  have "uint (push_bit k (ucast x :: 32 word)) = take_bit 32 (push_bit k (uint (ucast x :: 32 word)))"
    by (simp add: unsigned_push_bit_eq)
  also have "\<dots> = uint x * 2 ^ k"
    using b unfolding u by (simp add: push_bit_eq_mult take_bit_int_eq_self)
  finally show ?thesis .
qed

lemma sint_of_uint32:
  fixes w :: "32 word"
  shows "sint w = (if uint w < 2 ^ 31 then uint w else uint w - 2 ^ 32)"
proof -
  have b: "0 \<le> uint w" "uint w < 2 ^ 32"
    using uint_bounded [of w] by simp_all
  have "sint w = (uint w + 2 ^ 31) mod 2 ^ 32 - 2 ^ 31"
    by (simp add: sint_uint signed_take_bit_eq_take_bit_shift take_bit_eq_mod)
  also have "\<dots> = (if uint w < 2 ^ 31 then uint w else uint w - 2 ^ 32)"
  proof (cases "uint w < 2 ^ 31")
    case True
    then have "(uint w + 2 ^ 31) mod 2 ^ 32 = uint w + 2 ^ 31"
      using b by (intro mod_pos_pos_trivial) simp_all
    with True show ?thesis by simp
  next
    case False
    have "(uint w + 2 ^ 31) mod 2 ^ 32 = (uint w + 2 ^ 31 - 2 ^ 32 + 2 ^ 32) mod 2 ^ 32"
      by (simp add: algebra_simps)
    also have "\<dots> = (uint w + 2 ^ 31 - 2 ^ 32) mod 2 ^ 32"
      by (simp only: mod_add_self2)
    also have "\<dots> = uint w + 2 ^ 31 - 2 ^ 32"
      using False b by (intro mod_pos_pos_trivial) simp_all
    finally show ?thesis
      using False by simp
  qed
  finally show ?thesis .
qed

lemma js_shl_low:
  "k \<le> 16 \<Longrightarrow> js_shl x k = uint x * 2 ^ k"
proof -
  assume k: "k \<le> 16"
  have "uint x < 2 ^ 8"
    using uint_bounded [of x] by simp
  then have "uint x * 2 ^ k < 2 ^ 8 * 2 ^ k"
    by simp
  also have "\<dots> = 2 ^ (8 + k)"
    by (simp add: power_add)
  also have "\<dots> \<le> (2 :: int) ^ 24"
    using k by (intro power_increasing) simp_all
  finally have "uint x * 2 ^ k < 2 ^ 31"
    by simp
  then show ?thesis
    using k by (simp add: js_shl_def sint_of_uint32 uint_shl)
qed

lemma js_shl_24:
  "js_shl x 24 = (if uint x < 128 then uint x * 2 ^ 24 else uint x * 2 ^ 24 - 2 ^ 32)"
  by (simp add: js_shl_def sint_of_uint32 uint_shl)

lemma be_msb:
  fixes a b c d :: int
  assumes "0 \<le> a" "0 \<le> b" "b < 256" "0 \<le> c" "c < 256" "0 \<le> d" "d < 256"
  shows "(a < 128) = (a * 16777216 + b * 65536 + c * 256 + d < 2147483648)"
  using assms by arith

lemma targetId_sum:
  fixes r5 r6 r7 r8 :: byte
  defines "u \<equiv> uint r5 * 2 ^ 24 + uint r6 * 2 ^ 16 + uint r7 * 2 ^ 8 + uint r8"
  shows "js_shl r5 24 + js_shl r6 16 + js_shl r7 8 + js_shl r8 0 =
         (if u < 2 ^ 31 then u else u - 2 ^ 32)"
proof -
  have b: "uint r6 < 256" "uint r7 < 256" "uint r8 < 256"
    using uint_bounded [of r6] uint_bounded [of r7] uint_bounded [of r8] by simp_all
  have "uint r5 < 128 \<longleftrightarrow> u < 2 ^ 31"
    unfolding u_def using be_msb [of "uint r5" "uint r6" "uint r7" "uint r8"] b by simp
  then show ?thesis
    unfolding u_def by (simp add: js_shl_24 js_shl_low)
qed


lemma toString16_0: "toString16 0 = ''0''"
  by (simp add: toString16_def hex_nat.simps [of 0] hexdigit_def)

text \<open>
  What \<open>getVersion\<close> computes. When the transport answers the version query with
  \<open>response\<close>, it returns a result whose \<open>testMode\<close> is read from byte 0, \<open>major\<close>, \<open>minor\<close> and
  \<open>patch\<close> from bytes 1-3 and \<open>deviceLocked\<close> from byte 4 (for the bytes the response
  has). When the response has at least 9 bytes, \<open>targetId\<close> is the hexadecimal text of
  the big-endian 32-bit value of bytes 5-8, read as a signed number by the shifts of
  JavaScript; for a shorter response it is the text of 0.
\<close>

lemma getVersion_decodes:
  "send \<lparr>cla = CLA c, ins = INS_GET_VERSION c, p1 = 0, p2 = 0, data = [],
         statusList = None\<rparr> s = (Inr response, s') \<longrightarrow>
   (\<exists>v. getVersion c send s = (Inr v, s') \<and>
        returnCode v = returnCode_of response \<and>
        (0 < length response \<longrightarrow> testMode v = (response ! 0 \<noteq> 0)) \<and>
        (1 < length response \<longrightarrow> major v = Some (response ! 1)) \<and>
        (2 < length response \<longrightarrow> minor v = Some (response ! 2)) \<and>
        (3 < length response \<longrightarrow> patch v = Some (response ! 3)) \<and>
        (4 < length response \<longrightarrow> deviceLocked v = (response ! 4 = 1)) \<and>
        (9 \<le> length response \<longrightarrow>
           (let u = uint (response ! 5) * 2 ^ 24 + uint (response ! 6) * 2 ^ 16 +
                    uint (response ! 7) * 2 ^ 8 + uint (response ! 8)
            in targetId v = toString16 (if u < 2 ^ 31 then u else u - 2 ^ 32))) \<and>
        (length response < 9 \<longrightarrow> targetId v = ''0''))"
proof
  assume r: "send \<lparr>cla = CLA c, ins = INS_GET_VERSION c, p1 = 0, p2 = 0, data = [],
         statusList = None\<rparr> s = (Inr response, s')"
  let ?t = "if length response \<ge> 9
            then js_shl (response ! 5) 24 + js_shl (response ! 6) 16 +
                 js_shl (response ! 7) 8 + js_shl (response ! 8) 0
            else 0"
  let ?v = "\<lparr>returnCode = returnCode_of response,
             errorMessage = errorCodeToString c (returnCode_of response),
             testMode = (at response 0 \<noteq> Some 0), major = at response 1,
             minor = at response 2, patch = at response 3,
             deviceLocked = (at response 4 = Some 1), targetId = toString16 ?t\<rparr>"
  have g: "getVersion c send s = (Inr ?v, s')"
    by (simp add: getVersion_def r Let_def)
  have t9: "toString16 ?t =
      (let u = uint (response ! 5) * 2 ^ 24 + uint (response ! 6) * 2 ^ 16 +
               uint (response ! 7) * 2 ^ 8 + uint (response ! 8)
       in toString16 (if u < 2 ^ 31 then u else u - 2 ^ 32))" if "9 \<le> length response"
    using that by (simp only: if_True targetId_sum Let_def)
  have t0: "toString16 ?t = ''0''" if "length response < 9"
    using that by (simp add: toString16_0)
  show "\<exists>v. getVersion c send s = (Inr v, s') \<and>
        returnCode v = returnCode_of response \<and>
        (0 < length response \<longrightarrow> testMode v = (response ! 0 \<noteq> 0)) \<and>
        (1 < length response \<longrightarrow> major v = Some (response ! 1)) \<and>
        (2 < length response \<longrightarrow> minor v = Some (response ! 2)) \<and>
        (3 < length response \<longrightarrow> patch v = Some (response ! 3)) \<and>
        (4 < length response \<longrightarrow> deviceLocked v = (response ! 4 = 1)) \<and>
        (9 \<le> length response \<longrightarrow>
           (let u = uint (response ! 5) * 2 ^ 24 + uint (response ! 6) * 2 ^ 16 +
                    uint (response ! 7) * 2 ^ 8 + uint (response ! 8)
            in targetId v = toString16 (if u < 2 ^ 31 then u else u - 2 ^ 32))) \<and>
        (length response < 9 \<longrightarrow> targetId v = ''0'')"
  proof (intro exI [of _ ?v] conjI impI)
    show "getVersion c send s = (Inr ?v, s')" by (rule g)
    show "returnCode ?v = returnCode_of response" by simp
    show "testMode ?v = (response ! 0 \<noteq> 0)" if "0 < length response"
      using that by (simp add: at_def)
    show "major ?v = Some (response ! 1)" if "1 < length response"
      using that by (simp add: at_def)
    show "minor ?v = Some (response ! 2)" if "2 < length response"
      using that by (simp add: at_def)
    show "patch ?v = Some (response ! 3)" if "3 < length response"
      using that by (simp add: at_def)
    show "deviceLocked ?v = (response ! 4 = 1)" if "4 < length response"
      using that by (simp add: at_def)
    show "let u = uint (response ! 5) * 2 ^ 24 + uint (response ! 6) * 2 ^ 16 +
                    uint (response ! 7) * 2 ^ 8 + uint (response ! 8)
            in targetId ?v = toString16 (if u < 2 ^ 31 then u else u - 2 ^ 32)"
      if "9 \<le> length response"
      using t9 [OF that] by (simp add: Let_def)
    show "targetId ?v = ''0''" if "length response < 9"
      using t0 [OF that] by simp
  qed
qed

text \<open>
  A response of eleven bytes from a locked device running version 2.1.3, with the
  target identifier \<open>0x31100004\<close>.
\<close>

lemma getVersion_decodes_example:
  "\<exists>v. getVersion common0 scripted
          [Inr [0, 2, 1, 3, 1, 0x31, 0x10, 0x00, 0x04, 0x90, 0x00]] = (Inr v, []) \<and>
       returnCode v = Some 0x9000 \<and> testMode v = False \<and> major v = Some 2 \<and>
       minor v = Some 1 \<and> patch v = Some 3 \<and> deviceLocked v = True \<and>
       targetId v = ''31100004''"
proof -
  let ?r = "[0, 2, 1, 3, 1, 0x31, 0x10, 0x00, 0x04, 0x90, 0x00] :: buffer"
  have h: "scripted \<lparr>cla = CLA common0, ins = INS_GET_VERSION common0, p1 = 0, p2 = 0,
             data = [], statusList = None\<rparr> [Inr ?r] = (Inr ?r, [])"
    by (simp add: scripted_def)
  have rc: "returnCode_of ?r = Some 0x9000"
    by code_simp
  have t: "toString16 823132164 = ''31100004''"
    by (simp add: toString16_def hex_nat.simps hexdigit_def)
  note ex = getVersion_decodes [of scripted common0 "[Inr ?r]" ?r "[]", THEN mp, OF h]
  show ?thesis
    using ex rc t
    by (elim exE conjE) (intro exI conjI, assumption, simp_all add: Let_def)
qed

text \<open>
  C8. \<open>getVersion\<close> reads \<open>testMode\<close>, \<open>major\<close>, \<open>minor\<close>, \<open>patch\<close> and
  \<open>deviceLocked\<close> from bytes 0-4 as the claim says, but its \<open>targetId\<close> is not the
  big-endian 32-bit value of bytes 5-8 once the top bit of byte 5 is set: \<open>response[5]
  << 24\<close> is a signed 32-bit shift. For the bytes \<open>80 00 00 01\<close> the result is the text
  \<open>-7fffffff\<close>, where the big-endian value is \<open>80000001\<close>, the text that
  \<open>deviceInfo\<close> prints for the same four bytes of its own target identifier.
\<close>

theorem getVersion_targetId_signed:
  "getVersion common0 scripted
     [Inr [0, 2, 1, 3, 1, 0x80, 0x00, 0x00, 0x01, 0x90, 0x00]] =
     (Inr \<lparr>returnCode = Some 0x9000, errorMessage = ''No errors'', testMode = False,
            major = Some 2, minor = Some 1, patch = Some 3, deviceLocked = True,
            targetId = ''-7fffffff''\<rparr>, []) \<and>
   toString_hex [0x80, 0x00, 0x00, 0x01] = ''80000001''"
proof
  let ?r = "[0, 2, 1, 3, 1, 0x80, 0x00, 0x00, 0x01, 0x90, 0x00] :: buffer"
  have rc: "returnCode_of ?r = Some 0x9000"
    by code_simp
  have em: "errorCodeToString common0 (Some 0x9000) = ''No errors''"
    by (simp add: common0_def)
  have sh: "js_shl (0x80 :: byte) 24 + js_shl (0x00 :: byte) 16 + js_shl (0x00 :: byte) 8 +
            js_shl (0x01 :: byte) 0 = - 2147483647"
    by (simp add: js_shl_24 js_shl_low)
  have t: "toString16 (- 2147483647) = ''-7fffffff''"
    by (simp add: toString16_def hex_nat.simps hexdigit_def)
  show "getVersion common0 scripted [Inr ?r] =
     (Inr \<lparr>returnCode = Some 0x9000, errorMessage = ''No errors'', testMode = False,
            major = Some 2, minor = Some 1, patch = Some 3, deviceLocked = True,
            targetId = ''-7fffffff''\<rparr>, [])"
    by (simp add: getVersion_def scripted_def rc em sh t at_def Let_def)
  show "toString_hex [0x80, 0x00, 0x00, 0x01] = ''80000001''"
    by (simp add: toString_hex_def hexdigit_def)
qed

section \<open>Address queries\<close>

lemma slice_prefix: "slice buf 0 (int n) = take n buf"
  by (auto simp: slice_def adjustOffset_def Let_def min_def)

lemma slice_address: "slice buf 33 (- 2) = take (length buf - 35) (drop 33 buf)"
proof -
  have n: "nat (int (length buf) - 35) = length buf - 35"
    by arith
  show ?thesis
    by (auto simp: slice_def adjustOffset_def Let_def n)
qed

lemma getVersion_p1:
  "getVersion (c\<lparr>ONLY_RETRIEVE := x\<rparr>) send s = getVersion c send s"
  by (simp add: getVersion_def cong: prod.case_cong sum.case_cong if_cong)

lemma serializePath_p1:
  "THORChainApp_serializePath (c\<lparr>ONLY_RETRIEVE := x\<rparr>) send path s =
   THORChainApp_serializePath c send path s"
  by (simp add: THORChainApp_serializePath_def getVersion_p1
      cong: prod.case_cong sum.case_cong if_cong)

lemma serializeHRP_p1:
  "THORChainApp_serializeHRP (c\<lparr>ONLY_RETRIEVE := x\<rparr>) hrp = THORChainApp_serializeHRP c hrp"
  by (simp add: THORChainApp_serializeHRP_def cong: option.case_cong if_cong)

lemma show_is_get:
  "showAddressAndPubKey c send path hrp s =
   getAddressAndPubKey (c\<lparr>ONLY_RETRIEVE := SHOW_ADDRESS_IN_DEVICE c\<rparr>) send path hrp s"
  by (simp add: showAddressAndPubKey_def getAddressAndPubKey_def serializePath_p1
      serializeHRP_p1 cong: prod.case_cong sum.case_cong if_cong)

lemma get_decodes:
  assumes "THORChainApp_serializePath c send path s = (Inr serializedPath, t)"
    "THORChainApp_serializeHRP c hrp = Inr serializedHRP"
    "send \<lparr>cla = CLA c, ins = INS_GET_ADDR_SECP256K1 c, p1 = ONLY_RETRIEVE c, p2 = 0,
           data = serializedHRP @ serializedPath, statusList = Some [NoErrors c]\<rparr> t =
       (Inr response, u)"
  shows "getAddressAndPubKey c send path hrp s =
     (Inr \<lparr>returnCode = returnCode_of response,
            errorMessage = errorCodeToString c (returnCode_of response),
            bech32_address = utf8ToString c (take (length response - 35) (drop 33 response)),
            compressed_pk = take 33 response\<rparr>, u)"
  using assms slice_prefix [of response 33]
  by (simp add: getAddressAndPubKey_def Let_def slice_address)


text \<open>
  C10. \<open>showAddressAndPubKey\<close> is \<open>getAddressAndPubKey\<close> with the parameter
  \<open>SHOW_ADDRESS_IN_DEVICE\<close> in place of \<open>ONLY_RETRIEVE\<close>: nothing else differs. So
  when the path and the prefix serialize and the transport answers both commands with
  the same \<open>response\<close>, both return the same result: the first 33 bytes as the
  compressed public key, the bytes from 33 up to the last two as the address text, and
  the return code of the last two bytes.
\<close>

theorem address_decoders_agree:
  "showAddressAndPubKey c send path hrp s =
     getAddressAndPubKey (c\<lparr>ONLY_RETRIEVE := SHOW_ADDRESS_IN_DEVICE c\<rparr>) send path hrp s \<and>
   (THORChainApp_serializePath c send path s = (Inr serializedPath, t) \<and>
    THORChainApp_serializeHRP c hrp = Inr serializedHRP \<and>
    send \<lparr>cla = CLA c, ins = INS_GET_ADDR_SECP256K1 c, p1 = ONLY_RETRIEVE c, p2 = 0,
          data = serializedHRP @ serializedPath, statusList = Some [NoErrors c]\<rparr> t =
      (Inr response, u) \<and>
    send \<lparr>cla = CLA c, ins = INS_GET_ADDR_SECP256K1 c, p1 = SHOW_ADDRESS_IN_DEVICE c, p2 = 0,
          data = serializedHRP @ serializedPath, statusList = Some [NoErrors c]\<rparr> t =
      (Inr response, u') \<longrightarrow>
    getAddressAndPubKey c send path hrp s =
      (Inr \<lparr>returnCode = returnCode_of response,
             errorMessage = errorCodeToString c (returnCode_of response),
             bech32_address = utf8ToString c (take (length response - 35) (drop 33 response)),
             compressed_pk = take 33 response\<rparr>, u) \<and>
    showAddressAndPubKey c send path hrp s =
      (Inr \<lparr>returnCode = returnCode_of response,
             errorMessage = errorCodeToString c (returnCode_of response),
             bech32_address = utf8ToString c (take (length response - 35) (drop 33 response)),
             compressed_pk = take 33 response\<rparr>, u'))"
proof (intro conjI impI)
  show "showAddressAndPubKey c send path hrp s =
     getAddressAndPubKey (c\<lparr>ONLY_RETRIEVE := SHOW_ADDRESS_IN_DEVICE c\<rparr>) send path hrp s"
    by (rule show_is_get)
next
  assume a: "THORChainApp_serializePath c send path s = (Inr serializedPath, t) \<and>
    THORChainApp_serializeHRP c hrp = Inr serializedHRP \<and>
    send \<lparr>cla = CLA c, ins = INS_GET_ADDR_SECP256K1 c, p1 = ONLY_RETRIEVE c, p2 = 0,
          data = serializedHRP @ serializedPath, statusList = Some [NoErrors c]\<rparr> t =
      (Inr response, u) \<and>
    send \<lparr>cla = CLA c, ins = INS_GET_ADDR_SECP256K1 c, p1 = SHOW_ADDRESS_IN_DEVICE c, p2 = 0,
          data = serializedHRP @ serializedPath, statusList = Some [NoErrors c]\<rparr> t =
      (Inr response, u')"
  note a1 = a [THEN conjunct1] and a2 = a [THEN conjunct2, THEN conjunct1]
    and a3 = a [THEN conjunct2, THEN conjunct2, THEN conjunct1]
    and a4 = a [THEN conjunct2, THEN conjunct2, THEN conjunct2]
  show "getAddressAndPubKey c send path hrp s =
      (Inr \<lparr>returnCode = returnCode_of response,
             errorMessage = errorCodeToString c (returnCode_of response),
             bech32_address = utf8ToString c (take (length response - 35) (drop 33 response)),
             compressed_pk = take 33 response\<rparr>, u)"
    by (rule get_decodes [OF a1 a2 a3])
  let ?c = "c\<lparr>ONLY_RETRIEVE := SHOW_ADDRESS_IN_DEVICE c\<rparr>"
  have b1: "THORChainApp_serializePath ?c send path s = (Inr serializedPath, t)"
    using a1 by (simp add: serializePath_p1)
  have b2: "THORChainApp_serializeHRP ?c hrp = Inr serializedHRP"
    using a2 by (simp add: serializeHRP_p1)
  have b3: "send \<lparr>cla = CLA ?c, ins = INS_GET_ADDR_SECP256K1 ?c, p1 = ONLY_RETRIEVE ?c, p2 = 0,
          data = serializedHRP @ serializedPath, statusList = Some [NoErrors ?c]\<rparr> t =
      (Inr response, u')"
    using a4 by simp
  have "getAddressAndPubKey ?c send path hrp s =
      (Inr \<lparr>returnCode = returnCode_of response,
             errorMessage = errorCodeToString ?c (returnCode_of response),
             bech32_address = utf8ToString ?c (take (length response - 35) (drop 33 response)),
             compressed_pk = take 33 response\<rparr>, u')"
    by (rule get_decodes [OF b1 b2 b3])
  then show "showAddressAndPubKey c send path hrp s =
      (Inr \<lparr>returnCode = returnCode_of response,
             errorMessage = errorCodeToString c (returnCode_of response),
             bech32_address = utf8ToString c (take (length response - 35) (drop 33 response)),
             compressed_pk = take 33 response\<rparr>, u')"
    by (simp add: show_is_get)
qed

text \<open>
  A device of major version 2 that answers the address query with a 33-byte key, the
  text \<open>thor1\<close> and the status \<open>0x9000\<close>.
\<close>

theorem address_decoders_agree_witness:
  "getAddressAndPubKey common0 scripted [44, 931, 0, 0, 0] (Some ''thor'')
     [Inr [0, 2, 0, 0, 0, 0x90, 0],
      Inr (replicate 33 2 @ [0x74, 0x68, 0x6f, 0x72, 0x31, 0x90, 0x00])] =
     (Inr \<lparr>returnCode = Some 0x9000, errorMessage = ''No errors'',
            bech32_address = ''thor1'', compressed_pk = replicate 33 2\<rparr>, []) \<and>
   showAddressAndPubKey common0 scripted [44, 931, 0, 0, 0] (Some ''thor'')
     [Inr [0, 2, 0, 0, 0, 0x90, 0],
      Inr (replicate 33 2 @ [0x74, 0x68, 0x6f, 0x72, 0x31, 0x90, 0x00])] =
     (Inr \<lparr>returnCode = Some 0x9000, errorMessage = ''No errors'',
            bech32_address = ''thor1'', compressed_pk = replicate 33 2\<rparr>, [])"
proof -
  let ?r = "replicate 33 2 @ [0x74, 0x68, 0x6f, 0x72, 0x31, 0x90, 0x00] :: buffer"
  let ?sp = "[0x2c, 0, 0, 0x80, 0xa3, 0x03, 0, 0x80, 0, 0, 0, 0x80, 0, 0, 0, 0, 0, 0, 0, 0] :: buffer"
  let ?sh = "[4, 0x74, 0x68, 0x6f, 0x72] :: buffer"
  have sp: "THORChainApp_serializePath common0 scripted [44, 931, 0, 0, 0]
              [Inr [0, 2, 0, 0, 0, 0x90, 0], Inr ?r] = (Inr ?sp, [Inr ?r])"
    by code_simp
  have sh: "THORChainApp_serializeHRP common0 (Some ''thor'') = Inr ?sh"
    by (simp add: THORChainApp_serializeHRP_def writeUInt8_def bind_r_def utf8_def Let_def)
  have g: "scripted \<lparr>cla = CLA common0, ins = INS_GET_ADDR_SECP256K1 common0,
             p1 = ONLY_RETRIEVE common0, p2 = 0, data = ?sh @ ?sp,
             statusList = Some [NoErrors common0]\<rparr> [Inr ?r] = (Inr ?r, [])"
    by (simp add: scripted_def)
  have w: "scripted \<lparr>cla = CLA common0, ins = INS_GET_ADDR_SECP256K1 common0,
             p1 = SHOW_ADDRESS_IN_DEVICE common0, p2 = 0, data = ?sh @ ?sp,
             statusList = Some [NoErrors common0]\<rparr> [Inr ?r] = (Inr ?r, [])"
    by (simp add: scripted_def)
  have rc: "returnCode_of ?r = Some 0x9000"
    by code_simp
  have em: "errorCodeToString common0 (Some 0x9000) = ''No errors''"
    by (simp add: common0_def)
  have tx: "utf8ToString common0 [0x74, 0x68, 0x6f, 0x72, 0x31] = ''thor1''"
    by code_simp
  note address_decoders_agree [where c = common0 and send = scripted and t = "[Inr ?r]"
      and response = ?r, THEN conjunct2, THEN mp, OF conjI [OF sp conjI [OF sh conjI [OF g w]]]]
  then show ?thesis
    by (simp add: rc em tx)
qed

section \<open>The device-information response\<close>

lemma uint_len: "n < 256 \<Longrightarrow> uint (of_nat n :: byte) = int n"
proof -
  assume "n < 256"
  then have "unat (of_nat n :: byte) = n"
    by (simp add: unat_of_nat)
  then show ?thesis
    by (simp add: uint_nat)
qed

lemma at_n_field: "at_n (p @ b # r) (Some (int (length p))) = Some b"
  by (simp add: at_n_def at_def)

lemma slice_n_field:
  "slice_n (p @ f @ r) (Some (int (length p))) (Some (int (length p) + int (length f))) = f"
proof -
  let ?len = "int (length (p @ f @ r))"
  have a1: "adjustOffset (int (length p)) ?len = int (length p)"
    by (simp add: adjustOffset_def)
  have a2: "adjustOffset (int (length p) + int (length f)) ?len = int (length p) + int (length f)"
    by (simp add: adjustOffset_def)
  have "slice (p @ f @ r) (int (length p)) (int (length p) + int (length f)) =
        take (nat (if int (length p) + int (length f) > int (length p)
                   then int (length p) + int (length f) - int (length p) else 0))
          (drop (nat (int (length p))) (p @ f @ r))"
    unfolding slice_def Let_def a1 a2 ..
  also have "\<dots> = f"
    by simp
  finally show ?thesis
    by (simp add: slice_n_def)
qed

lemma slice_n_butlast:
  assumes f: "f \<noteq> []"
  shows "slice_n (p @ f @ r) (Some (int (length p)))
           (Some (int (length p) + int (length f) - 1)) = butlast f"
proof -
  have "0 < length f"
    using f by simp
  then have "int (length p) + int (length f - 1) = int (length p) + int (length f) - 1"
    by arith
  then have C: "int (length p) + int (length (butlast f)) = int (length p) + int (length f) - 1"
    by (simp only: length_butlast)
  have "butlast f @ ([last f] @ r) = (butlast f @ [last f]) @ r"
    by (simp only: append_assoc)
  also have "\<dots> = f @ r"
    by (simp only: append_butlast_last_id [OF f])
  finally have B: "butlast f @ ([last f] @ r) = f @ r" .
  have "slice_n (p @ butlast f @ ([last f] @ r)) (Some (int (length p)))
          (Some (int (length p) + int (length (butlast f)))) = butlast f"
    by (rule slice_n_field)
  then show ?thesis
    unfolding B C .
qed


lemma plus_n_Some: "plus_n (Some a) (Some b) = Some (a + b)"
  by (simp add: plus_n_def)

lemma slice_targetId: "length tid = 4 \<Longrightarrow> slice (tid @ r) 0 4 = tid"
  by (simp add: slice_def adjustOffset_def Let_def)

text \<open>
  A device-information response that carries its four fields in full: the positions
  the decoder computes, and what it reads there.
\<close>

lemma deviceInfo_fields:
  fixes tid se fl mcu rest :: buffer
  defines "response \<equiv> tid @ [of_nat (length se)] @ se @ [of_nat (length fl)] @ fl @
                         [of_nat (length mcu)] @ mcu @ rest"
  defines "pos1 \<equiv> plus_n (Some 4) (Some 1)"
  defines "pos2 \<equiv> plus_n pos1 (Some (int (length se)))"
  defines "pos3 \<equiv> plus_n pos2 (Some 1)"
  defines "pos4 \<equiv> plus_n pos3 (Some (int (length fl)))"
  defines "pos5 \<equiv> plus_n pos4 (Some 1)"
  assumes l: "length tid = 4" "length se < 256" "length fl < 256" "length mcu < 256"
  shows "slice response 0 4 = tid"
    and "num_of (at_n response (Some 4)) = Some (int (length se))"
    and "slice_n response pos1 pos2 = se"
    and "num_of (at_n response pos2) = Some (int (length fl))"
    and "slice_n response pos3 pos4 = fl"
    and "num_of (at_n response pos4) = Some (int (length mcu))"
    and "slice_n response pos5 (plus_n pos5 (Some (int (length mcu)))) = mcu"
    and "mcu \<noteq> [] \<Longrightarrow>
         slice_n response pos5 (plus_n (plus_n pos5 (Some (int (length mcu)))) (Some (- 1))) =
           butlast mcu"
proof -
  let ?l1 = "of_nat (length se) :: byte" and ?l2 = "of_nat (length fl) :: byte"
    and ?l3 = "of_nat (length mcu) :: byte"
  let ?p1 = "tid @ [?l1]"
  let ?p2 = "?p1 @ se"
  let ?p3 = "?p2 @ [?l2]"
  let ?p4 = "?p3 @ fl"
  let ?p5 = "?p4 @ [?l3]"
  have r0: "response = tid @ ?l1 # (se @ [?l2] @ fl @ [?l3] @ mcu @ rest)"
    and r1: "response = ?p1 @ se @ ([?l2] @ fl @ [?l3] @ mcu @ rest)"
    and r2: "response = ?p2 @ ?l2 # (fl @ [?l3] @ mcu @ rest)"
    and r3: "response = ?p3 @ fl @ ([?l3] @ mcu @ rest)"
    and r4: "response = ?p4 @ ?l3 # (mcu @ rest)"
    and r5: "response = ?p5 @ mcu @ rest"
    by (simp_all add: response_def)
  have p0: "Some 4 = Some (int (length tid))"
    by (simp add: l)
  have p1: "pos1 = Some (int (length ?p1))"
    by (simp add: pos1_def plus_n_Some l)
  have p2: "pos2 = Some (int (length ?p1) + int (length se))" "pos2 = Some (int (length ?p2))"
    by (simp_all add: pos2_def p1 plus_n_Some)
  have p3: "pos3 = Some (int (length ?p3))"
    by (simp add: pos3_def p2(2) plus_n_Some)
  have p4: "pos4 = Some (int (length ?p3) + int (length fl))" "pos4 = Some (int (length ?p4))"
    by (simp_all add: pos4_def p3 plus_n_Some)
  have p5: "pos5 = Some (int (length ?p5))"
    by (simp add: pos5_def p4(2) plus_n_Some)
  have p6: "plus_n (Some (int (length ?p5))) (Some (int (length mcu))) =
            Some (int (length ?p5) + int (length mcu))"
    by (simp only: plus_n_Some)
  have p7: "plus_n (Some (int (length ?p5) + int (length mcu))) (Some (- 1)) =
            Some (int (length ?p5) + int (length mcu) - 1)"
    by (simp add: plus_n_Some)
  show "slice response 0 4 = tid"
    unfolding r0 using l(1) by (rule slice_targetId)
  have "at_n response (Some 4) = Some ?l1"
    unfolding p0 by (subst r0) (rule at_n_field)
  then show "num_of (at_n response (Some 4)) = Some (int (length se))"
    by (simp add: num_of_def uint_len l)
  show "slice_n response pos1 pos2 = se"
    unfolding p1 p2(1) by (subst r1) (rule slice_n_field)
  have "at_n response pos2 = Some ?l2"
    unfolding p2(2) by (subst r2) (rule at_n_field)
  then show "num_of (at_n response pos2) = Some (int (length fl))"
    by (simp add: num_of_def uint_len l)
  show "slice_n response pos3 pos4 = fl"
    unfolding p3 p4(1) by (subst r3) (rule slice_n_field)
  have "at_n response pos4 = Some ?l3"
    unfolding p4(2) by (subst r4) (rule at_n_field)
  then show "num_of (at_n response pos4) = Some (int (length mcu))"
    by (simp add: num_of_def uint_len l)
  show "slice_n response pos5 (plus_n pos5 (Some (int (length mcu)))) = mcu"
    unfolding p5 p6 by (subst r5) (rule slice_n_field)
  show "slice_n response pos5 (plus_n (plus_n pos5 (Some (int (length mcu)))) (Some (- 1))) =
           butlast mcu" if "mcu \<noteq> []"
    unfolding p5 p6 p7 by (subst r5) (rule slice_n_butlast [OF that])
qed


lemma trim_cond:
  "(at_n mcu (plus_n (Some (int (length mcu))) (Some (- 1))) = Some 0) =
   (mcu \<noteq> [] \<and> last mcu = 0)"
proof (cases "mcu = []")
  case True
  then show ?thesis
    by (simp add: plus_n_Some at_n_def at_def)
next
  case False
  then have "0 < length mcu"
    by simp
  then have n: "nat (int (length mcu) - 1) = length mcu - 1"
    by arith
  show ?thesis
    using False \<open>0 < length mcu\<close> by (simp add: plus_n_Some at_n_def at_def n last_conv_nth)
qed

text \<open>
  C9. When the response to the device-information query has the status \<open>0x6E00\<close>,
  \<open>deviceInfo\<close> returns the dashboard-only message as a result, with no parsed
  field. Otherwise, for a response that carries the 4-byte target identifier and the
  three length-prefixed fields in full, it returns the target identifier and the flags
  in hexadecimal, the secure-element version as text, and the MCU version as text
  after dropping its last byte when that byte is 0.
\<close>

theorem deviceInfo_decodes:
  "send \<lparr>cla = 0xe0, ins = 0x01, p1 = 0, p2 = 0, data = [],
         statusList = Some [NoErrors c, AppDoesNotSeemToBeOpen c]\<rparr> s = (Inr response, s') \<longrightarrow>
   (returnCode_of response = Some 0x6e00 \<longrightarrow>
      deviceInfo c send s =
        (Inr \<lparr>return_code = Some 0x6e00,
               error_message = ''This command is only available in the Dashboard'',
               device_targetId = None, seVersion = None, flag = None, mcuVersion = None\<rparr>,
         s')) \<and>
   (returnCode_of response \<noteq> Some 0x6e00 \<and>
    response = tid @ [of_nat (length se)] @ se @ [of_nat (length fl)] @ fl @
               [of_nat (length mcu)] @ mcu @ rest \<and>
    length tid = 4 \<and> length se < 256 \<and> length fl < 256 \<and> length mcu < 256 \<longrightarrow>
      deviceInfo c send s =
        (Inr \<lparr>return_code = returnCode_of response,
               error_message = errorCodeToString c (returnCode_of response),
               device_targetId = Some (toString_hex tid),
               seVersion = Some (utf8ToString c se),
               flag = Some (toString_hex fl),
               mcuVersion = Some (utf8ToString c
                 (if mcu \<noteq> [] \<and> last mcu = 0 then butlast mcu else mcu))\<rparr>,
         s'))"
proof (intro impI conjI)
  assume r: "send \<lparr>cla = 0xe0, ins = 0x01, p1 = 0, p2 = 0, data = [],
         statusList = Some [NoErrors c, AppDoesNotSeemToBeOpen c]\<rparr> s = (Inr response, s')"
  assume "returnCode_of response = Some 0x6e00"
  then show "deviceInfo c send s =
        (Inr \<lparr>return_code = Some 0x6e00,
               error_message = ''This command is only available in the Dashboard'',
               device_targetId = None, seVersion = None, flag = None, mcuVersion = None\<rparr>,
         s')"
    by (simp add: deviceInfo_def r)
next
  let ?R = "tid @ [of_nat (length se)] @ se @ [of_nat (length fl)] @ fl @
            [of_nat (length mcu)] @ mcu @ rest"
  assume r: "send \<lparr>cla = 0xe0, ins = 0x01, p1 = 0, p2 = 0, data = [],
         statusList = Some [NoErrors c, AppDoesNotSeemToBeOpen c]\<rparr> s = (Inr response, s')"
  assume b: "returnCode_of response \<noteq> Some 0x6e00 \<and> response = ?R \<and>
    length tid = 4 \<and> length se < 256 \<and> length fl < 256 \<and> length mcu < 256"
  note eq = b [THEN conjunct2, THEN conjunct1]
  note nd = b [THEN conjunct1, unfolded eq]
  from b have l: "length tid = 4" "length se < 256" "length fl < 256" "length mcu < 256"
    by simp_all
  have r': "send \<lparr>cla = 0xe0, ins = 0x01, p1 = 0, p2 = 0, data = [],
         statusList = Some [NoErrors c, AppDoesNotSeemToBeOpen c]\<rparr> s = (Inr ?R, s')"
    using r unfolding eq .
  note F = deviceInfo_fields [OF l, where rest = rest]
  have "deviceInfo c send s =
        (Inr \<lparr>return_code = returnCode_of ?R,
               error_message = errorCodeToString c (returnCode_of ?R),
               device_targetId = Some (toString_hex tid),
               seVersion = Some (utf8ToString c se),
               flag = Some (toString_hex fl),
               mcuVersion = Some (utf8ToString c
                 (if mcu \<noteq> [] \<and> last mcu = 0 then butlast mcu else mcu))\<rparr>,
         s')"
  proof (cases "mcu \<noteq> [] \<and> last mcu = 0")
    case True
    then have m: "mcu \<noteq> []"
      by simp
    show ?thesis
      unfolding deviceInfo_def r'
      by (simp only: prod.case sum.case Let_def nd if_False F(1-7) F(8) [OF m] trim_cond True
          if_True)
  next
    case False
    show ?thesis
      unfolding deviceInfo_def r'
      by (simp only: prod.case sum.case Let_def nd if_False F(1-7) trim_cond False)
  qed
  then show "deviceInfo c send s =
        (Inr \<lparr>return_code = returnCode_of response,
               error_message = errorCodeToString c (returnCode_of response),
               device_targetId = Some (toString_hex tid),
               seVersion = Some (utf8ToString c se),
               flag = Some (toString_hex fl),
               mcuVersion = Some (utf8ToString c
                 (if mcu \<noteq> [] \<and> last mcu = 0 then butlast mcu else mcu))\<rparr>,
         s')"
    unfolding eq .
qed

text \<open>
  The dashboard-only answer, and an answer with the target identifier \<open>31100004\<close>,
  the versions \<open>1.6\<close> and \<open>1.7\<close> (the latter followed by a zero byte) and four
  flag bytes.
\<close>

theorem deviceInfo_decodes_witness:
  "deviceInfo common0 scripted [Inr [0x6e, 0x00]] =
     (Inr \<lparr>return_code = Some 0x6e00,
            error_message = ''This command is only available in the Dashboard'',
            device_targetId = None, seVersion = None, flag = None, mcuVersion = None\<rparr>, []) \<and>
   deviceInfo common0 scripted
     [Inr [0x31, 0x10, 0x00, 0x04, 3, 0x31, 0x2e, 0x36, 4, 0xee, 0, 0, 0,
           4, 0x31, 0x2e, 0x37, 0x00, 0x90, 0x00]] =
     (Inr \<lparr>return_code = Some 0x9000, error_message = ''No errors'',
            device_targetId = Some ''31100004'', seVersion = Some ''1.6'',
            flag = Some ''ee000000'', mcuVersion = Some ''1.7''\<rparr>, [])"
proof -
  let ?a = "\<lparr>cla = 0xe0, ins = 0x01, p1 = 0, p2 = 0, data = [],
             statusList = Some [NoErrors common0, AppDoesNotSeemToBeOpen common0]\<rparr>"
  let ?D = "[0x6e, 0x00] :: buffer"
  let ?R = "[0x31, 0x10, 0x00, 0x04, 3, 0x31, 0x2e, 0x36, 4, 0xee, 0, 0, 0,
            4, 0x31, 0x2e, 0x37, 0x00, 0x90, 0x00] :: buffer"
  let ?tid = "[0x31, 0x10, 0x00, 0x04] :: buffer" and ?se = "[0x31, 0x2e, 0x36] :: buffer"
    and ?fl = "[0xee, 0, 0, 0] :: buffer" and ?mcu = "[0x31, 0x2e, 0x37, 0x00] :: buffer"
    and ?rest = "[0x90, 0x00] :: buffer"
  have hD: "scripted ?a [Inr ?D] = (Inr ?D, [])" and hR: "scripted ?a [Inr ?R] = (Inr ?R, [])"
    by (simp_all add: scripted_def)
  have rcD: "returnCode_of ?D = Some 0x6e00" and rcR: "returnCode_of ?R = Some 0x9000"
    by code_simp+
  have pre: "returnCode_of ?R \<noteq> Some 0x6e00 \<and>
    ?R = ?tid @ [of_nat (length ?se)] @ ?se @ [of_nat (length ?fl)] @ ?fl @
         [of_nat (length ?mcu)] @ ?mcu @ ?rest \<and>
    length ?tid = 4 \<and> length ?se < 256 \<and> length ?fl < 256 \<and> length ?mcu < 256"
    by (simp add: rcR)
  have tx: "toString_hex ?tid = ''31100004''" "toString_hex ?fl = ''ee000000''"
    "utf8ToString common0 ?se = ''1.6''" "utf8ToString common0 [0x31, 0x2e, 0x37] = ''1.7''"
    by code_simp+
  have em: "errorCodeToString common0 (Some 0x9000) = ''No errors''"
    by (simp add: common0_def)
  note d = deviceInfo_decodes [where c = common0 and send = scripted and s = "[Inr ?D]"
      and response = ?D, THEN mp, OF hD, THEN conjunct1, THEN mp, OF rcD]
  note i = deviceInfo_decodes [where c = common0 and send = scripted and s = "[Inr ?R]"
      and response = ?R and tid = ?tid and se = ?se and fl = ?fl and mcu = ?mcu
      and rest = ?rest, THEN mp, OF hR, THEN conjunct2, THEN mp, OF pre]
  show ?thesis
    using d i by (simp add: rcR tx em)
qed

section \<open>The dispatch on the version\<close>

lemma serializePath_dispatch:
  "(getVersion c send s = (Inl err, s') \<longrightarrow>
      THORChainApp_serializePath c send path s = (Inl err, s')) \<and>
   (getVersion c send s = (Inr v, s') \<and> returnCode v \<noteq> Some (NoErrors c) \<longrightarrow>
      THORChainApp_serializePath c send path s =
        (Inl (LedgerError (returnCode v) (Some (errorMessage v))), s')) \<and>
   (getVersion c send s = (Inr v, s') \<and> returnCode v = Some (NoErrors c) \<and>
    major v \<noteq> Some 2 \<longrightarrow>
      THORChainApp_serializePath c send path s =
        (Inl (LedgerError (Some (ExecutionError c)) (Some ''App Version is not supported'')),
         s')) \<and>
   (getVersion c send s = (Inr v, s') \<and> returnCode v = Some (NoErrors c) \<and>
    major v = Some 2 \<longrightarrow>
      THORChainApp_serializePath c send path s = (serializePathv2 path, s'))"
  by (simp add: THORChainApp_serializePath_def)

lemma signSendChunk_dispatch:
  "(getVersion c send s = (Inl err, s') \<longrightarrow>
      THORChainApp_signSendChunk c send chunkIdx chunkNum chunk s = (Inl err, s')) \<and>
   (getVersion c send s = (Inr v, s') \<and> major v \<noteq> Some 2 \<longrightarrow>
      THORChainApp_signSendChunk c send chunkIdx chunkNum chunk s =
        (Inl (LedgerError (Some (ExecutionError c)) (Some ''App Version is not supported'')),
         s')) \<and>
   (getVersion c send s = (Inr v, s') \<and> major v = Some 2 \<longrightarrow>
      THORChainApp_signSendChunk c send chunkIdx chunkNum chunk s =
        signSendChunkv2 c send chunkIdx chunkNum chunk s')"
  by (simp add: THORChainApp_signSendChunk_def)

lemma path_operations_stop:
  "THORChainApp_serializePath c send path s = (Inl err, s') \<longrightarrow>
     THORChainApp_signGetChunks c send path message s = (Inl err, s') \<and>
     sign c send path message s = (Inl err, s') \<and>
     getAddressAndPubKey c send path hrp s = (Inl err, s') \<and>
     showAddressAndPubKey c send path hrp s = (Inl err, s') \<and>
     publicKey c send path s = (Inl (ledgerErrorFromResponse c err), s')"
  by (simp add: THORChainApp_signGetChunks_def sign_def getAddressAndPubKey_def
      showAddressAndPubKey_def publicKey_def)

lemma getVersion_log:
  "snd (snd (getVersion c (logged send) (s, log))) =
     log @ [\<lparr>cla = CLA c, ins = INS_GET_VERSION c, p1 = 0, p2 = 0, data = [],
             statusList = None\<rparr>]"
proof -
  let ?a = "\<lparr>cla = CLA c, ins = INS_GET_VERSION c, p1 = 0, p2 = 0, data = [],
             statusList = None\<rparr>"
  obtain r s' where rs: "send ?a s = (r, s')"
    by (cases "send ?a s")
  have l: "logged send ?a (s, log) = (r, (s', log @ [?a]))"
    using rs by (simp add: logged_def)
  show ?thesis
    unfolding getVersion_def l
    by (cases r) (simp_all add: Let_def)
qed

lemma serializePath_log:
  "snd (snd (THORChainApp_serializePath c (logged send) path (s, log))) =
     log @ [\<lparr>cla = CLA c, ins = INS_GET_VERSION c, p1 = 0, p2 = 0, data = [],
             statusList = None\<rparr>]"
proof -
  obtain r st where g: "getVersion c (logged send) (s, log) = (r, st)"
    by (cases "getVersion c (logged send) (s, log)")
  then have "snd st = log @ [\<lparr>cla = CLA c, ins = INS_GET_VERSION c, p1 = 0, p2 = 0, data = [],
             statusList = None\<rparr>]"
    using getVersion_log [of c send s log] by simp
  then show ?thesis
    unfolding THORChainApp_serializePath_def g
    by (cases r) simp_all
qed


lemma getVersion_ext:
  "snd (snd (getVersion c (logged send) st)) =
     snd st @ [\<lparr>cla = CLA c, ins = INS_GET_VERSION c, p1 = 0, p2 = 0, data = [],
                statusList = None\<rparr>]"
  using getVersion_log [of c send "fst st" "snd st"] by simp

lemma serializePath_ext:
  "snd (snd (THORChainApp_serializePath c (logged send) path st)) =
     snd st @ [\<lparr>cla = CLA c, ins = INS_GET_VERSION c, p1 = 0, p2 = 0, data = [],
                statusList = None\<rparr>]"
  using serializePath_log [of c send path "fst st" "snd st"] by simp

lemma logged_ext: "snd (snd (logged send a st)) = snd st @ [a]"
  by (simp add: logged_def split: prod.split)

lemma signSendChunkv2_ext:
  "\<exists>new. snd (snd (signSendChunkv2 c (logged send) chunkIdx chunkNum chunk st)) = snd st @ new"
  using signSendChunkv1_log [of c send _ 0 chunk "fst st" "snd st"]
  by (simp add: signSendChunkv2_def Let_def)

lemma app_signSendChunk_ext:
  "\<exists>new. snd (snd (THORChainApp_signSendChunk c (logged send) chunkIdx chunkNum chunk st)) =
     snd st @ new"
proof -
  obtain r st' where g: "getVersion c (logged send) st = (r, st')"
    by (cases "getVersion c (logged send) st")
  have e: "snd st' = snd st @ [\<lparr>cla = CLA c, ins = INS_GET_VERSION c, p1 = 0, p2 = 0,
             data = [], statusList = None\<rparr>]"
    using getVersion_ext [of c send st] g by simp
  show ?thesis
  proof (cases r)
    case (Inl err)
    then show ?thesis
      unfolding THORChainApp_signSendChunk_def g by (simp add: e)
  next
    case (Inr v)
    obtain new where "snd (snd (signSendChunkv2 c (logged send) chunkIdx chunkNum chunk st')) =
        snd st' @ new"
      using signSendChunkv2_ext [of c send chunkIdx chunkNum chunk st'] by (elim exE)
    then show ?thesis
      unfolding THORChainApp_signSendChunk_def g using Inr by (simp add: e)
  qed
qed

lemma sign_loop_ext:
  "\<exists>new. snd (snd (sign_loop c (logged send) chunks i result st)) = snd st @ new"
proof (induction "length chunks - i" arbitrary: i result st rule: less_induct)
  case less
  show ?case
  proof (cases "i < length chunks")
    case False
    then show ?thesis
      by (subst sign_loop.simps) simp
  next
    case True
    let ?call = "THORChainApp_signSendChunk c (logged send) (1 + int i) (int (length chunks))
                   (chunks ! i) st"
    obtain r st' where g: "?call = (r, st')"
      by (cases ?call)
    obtain new where e: "snd st' = snd st @ new"
      using app_signSendChunk_ext [of c send "1 + int i" "int (length chunks)" "chunks ! i" st] g
      by auto
    show ?thesis
    proof (cases r)
      case (Inl err)
      then show ?thesis
        using True g e by (subst sign_loop.simps) simp
    next
      case (Inr result')
      show ?thesis
      proof (cases "returnCode result' \<noteq> Some (NoErrors c)")
        case True
        then show ?thesis
          using \<open>i < length chunks\<close> g e Inr by (subst sign_loop.simps) simp
      next
        case False
        have "length chunks - (i + 1) < length chunks - i"
          using \<open>i < length chunks\<close> by simp
        from less [OF this, of result' st']
        obtain new' where "snd (snd (sign_loop c (logged send) chunks (i + 1) result' st')) =
            snd st' @ new'"
          by (elim exE)
        then show ?thesis
          using \<open>i < length chunks\<close> g e Inr False by (subst sign_loop.simps) simp
      qed
    qed
  qed
qed


lemma signGetChunks_ext:
  "snd (snd (THORChainApp_signGetChunks c (logged send) path message st)) =
     snd st @ [\<lparr>cla = CLA c, ins = INS_GET_VERSION c, p1 = 0, p2 = 0, data = [],
                statusList = None\<rparr>]"
proof -
  obtain r st' where g: "THORChainApp_serializePath c (logged send) path st = (r, st')"
    by (cases "THORChainApp_serializePath c (logged send) path st")
  then have "snd st' = snd st @ [\<lparr>cla = CLA c, ins = INS_GET_VERSION c, p1 = 0, p2 = 0,
      data = [], statusList = None\<rparr>]"
    using serializePath_ext [of c send path st] by simp
  then show ?thesis
    unfolding THORChainApp_signGetChunks_def g by (cases r) simp_all
qed

lemma sign_starts:
  "\<exists>rest. snd (snd (sign c (logged send) path message st)) =
     snd st @ \<lparr>cla = CLA c, ins = INS_GET_VERSION c, p1 = 0, p2 = 0, data = [],
                statusList = None\<rparr> # rest"
proof -
  let ?va = "\<lparr>cla = CLA c, ins = INS_GET_VERSION c, p1 = 0, p2 = 0, data = [],
              statusList = None\<rparr>"
  obtain r sa where g: "THORChainApp_signGetChunks c (logged send) path message st = (r, sa)"
    by (cases "THORChainApp_signGetChunks c (logged send) path message st")
  then have a: "snd sa = snd st @ [?va]"
    using signGetChunks_ext [of c send path message st] by simp
  show ?thesis
  proof (cases r)
    case (Inl err)
    then show ?thesis
      unfolding sign_def g by (simp add: a)
  next
    case (Inr chunks)
    let ?call = "THORChainApp_signSendChunk c (logged send) 1 (int (length chunks)) (chunks ! 0) sa"
    obtain r' sb where h: "?call = (r', sb)"
      by (cases ?call)
    obtain new where b: "snd sb = snd sa @ new"
      using app_signSendChunk_ext [of c send 1 "int (length chunks)" "chunks ! 0" sa] h by auto
    show ?thesis
    proof (cases r')
      case (Inl err)
      then show ?thesis
        unfolding sign_def g using Inr h by (simp add: a b)
    next
      case Inr': (Inr response)
      let ?result = "\<lparr>returnCode = returnCode response, errorMessage = errorMessage response,
                       signature = None\<rparr>"
      obtain r'' sc where k: "sign_loop c (logged send) chunks 1 ?result sb = (r'', sc)"
        by (cases "sign_loop c (logged send) chunks 1 ?result sb")
      obtain new' where d: "snd sc = snd sb @ new'"
        using sign_loop_ext [of c send chunks 1 ?result sb] k by auto
      show ?thesis
        unfolding sign_def g using Inr Inr' h k by (cases r'') (simp_all add: a b d Let_def)
    qed
  qed
qed

lemma getAddressAndPubKey_starts:
  "\<exists>rest. snd (snd (getAddressAndPubKey c (logged send) path hrp st)) =
     snd st @ \<lparr>cla = CLA c, ins = INS_GET_VERSION c, p1 = 0, p2 = 0, data = [],
                statusList = None\<rparr> # rest"
proof -
  let ?va = "\<lparr>cla = CLA c, ins = INS_GET_VERSION c, p1 = 0, p2 = 0, data = [],
              statusList = None\<rparr>"
  obtain r sa where g: "THORChainApp_serializePath c (logged send) path st = (r, sa)"
    by (cases "THORChainApp_serializePath c (logged send) path st")
  then have a: "snd sa = snd st @ [?va]"
    using serializePath_ext [of c send path st] by simp
  show ?thesis
  proof (cases r)
    case (Inl err)
    then show ?thesis
      unfolding getAddressAndPubKey_def g by (simp add: a)
  next
    case (Inr serializedPath)
    show ?thesis
    proof (cases "THORChainApp_serializeHRP c hrp")
      case (Inl err)
      then show ?thesis
        unfolding getAddressAndPubKey_def g using Inr by (simp add: a)
    next
      case Inr': (Inr serializedHRP)
      let ?a = "\<lparr>cla = CLA c, ins = INS_GET_ADDR_SECP256K1 c, p1 = ONLY_RETRIEVE c, p2 = 0,
                 data = serializedHRP @ serializedPath, statusList = Some [NoErrors c]\<rparr>"
      obtain r' sb where h: "logged send ?a sa = (r', sb)"
        by (cases "logged send ?a sa")
      then have b: "snd sb = snd sa @ [?a]"
        using logged_ext [of send ?a sa] by simp
      show ?thesis
        unfolding getAddressAndPubKey_def g using Inr Inr' h
        by (cases r') (simp_all add: a b Let_def)
    qed
  qed
qed

lemma publicKeyv2_ext:
  "\<exists>new. snd (snd (publicKeyv2 c (logged send) dat st)) = snd st @ new"
proof -
  let ?a = "\<lparr>cla = CLA c, ins = INS_GET_ADDR_SECP256K1 c, p1 = 0, p2 = 0, data = dat,
             statusList = Some [NoErrors c]\<rparr>"
  obtain r sb where h: "logged send ?a st = (r, sb)"
    by (cases "logged send ?a st")
  then have b: "snd sb = snd st @ [?a]"
    using logged_ext [of send ?a st] by simp
  show ?thesis
    unfolding publicKeyv2_def h by (cases r) (simp_all add: b Let_def)
qed

lemma publicKey_starts:
  "\<exists>rest. snd (snd (publicKey c (logged send) path st)) =
     snd st @ \<lparr>cla = CLA c, ins = INS_GET_VERSION c, p1 = 0, p2 = 0, data = [],
                statusList = None\<rparr> # rest"
proof -
  let ?va = "\<lparr>cla = CLA c, ins = INS_GET_VERSION c, p1 = 0, p2 = 0, data = [],
              statusList = None\<rparr>"
  obtain r sa where g: "THORChainApp_serializePath c (logged send) path st = (r, sa)"
    by (cases "THORChainApp_serializePath c (logged send) path st")
  then have a: "snd sa = snd st @ [?va]"
    using serializePath_ext [of c send path st] by simp
  show ?thesis
  proof (cases r)
    case (Inl err)
    then show ?thesis
      unfolding publicKey_def g by (simp add: a)
  next
    case (Inr serializedPath)
    obtain r' sb where h: "getVersion c (logged send) sa = (r', sb)"
      by (cases "getVersion c (logged send) sa")
    then have b: "snd sb = snd sa @ [?va]"
      using getVersion_ext [of c send sa] by simp
    show ?thesis
    proof (cases r')
      case (Inl err)
      then show ?thesis
        unfolding publicKey_def g using Inr h by (simp add: a b)
    next
      case Inr': (Inr version)
      show ?thesis
      proof (cases "major version = Some 2")
        case False
        then show ?thesis
          unfolding publicKey_def g using Inr Inr' h by (simp add: a b)
      next
        case True
        show ?thesis
        proof (cases "THORChainApp_serializeHRP c (Some ''thor'')")
          case (Inl err)
          then show ?thesis
            unfolding publicKey_def g using Inr Inr' h True by (simp add: a b)
        next
          case Inr'': (Inr serializedHRP)
          obtain new where "snd (snd (publicKeyv2 c (logged send)
              (serializedHRP @ serializedPath) sb)) = snd sb @ new"
            using publicKeyv2_ext [of c send "serializedHRP @ serializedPath" sb] by (elim exE)
          then show ?thesis
            unfolding publicKey_def g using Inr Inr' Inr'' h True by (simp add: a b)
        qed
      qed
    qed
  qed
qed

lemma showAddressAndPubKey_starts:
  "\<exists>rest. snd (snd (showAddressAndPubKey c (logged send) path hrp st)) =
     snd st @ \<lparr>cla = CLA c, ins = INS_GET_VERSION c, p1 = 0, p2 = 0, data = [],
                statusList = None\<rparr> # rest"
  using getAddressAndPubKey_starts
    [of "c\<lparr>ONLY_RETRIEVE := SHOW_ADDRESS_IN_DEVICE c\<rparr>" send path hrp st]
  by (simp add: show_is_get)

text \<open>
  C7. \<open>THORChainApp.serializePath\<close> sends the version query and nothing else. A
  failed query, or a version response whose status is not \<open>NoErrors\<close>, makes it fail
  with that error or with a \<open>LedgerError\<close> carrying the response's status and message;
  with the status \<open>NoErrors\<close>, major version 2 selects \<open>serializePathv2\<close> and any
  other major version fails with \<open>App Version is not supported\<close>. Every operation
  that takes a path (\<open>signGetChunks\<close>, \<open>sign\<close>, \<open>getAddressAndPubKey\<close>,
  \<open>showAddressAndPubKey\<close>, \<open>publicKey\<close>) starts with it, so the first command it
  sends is the version query, and stops with its error, leaving the transport as the
  version query left it. \<open>THORChainApp.signSendChunk\<close>
  dispatches on the major version in the same way: 2 selects \<open>signSendChunkv2\<close>, any
  other value fails with \<open>App Version is not supported\<close>.
\<close>

theorem version_dispatch:
  "snd (snd (THORChainApp_serializePath c (logged send) path (s, log))) =
     log @ [\<lparr>cla = CLA c, ins = INS_GET_VERSION c, p1 = 0, p2 = 0, data = [],
             statusList = None\<rparr>] \<and>
   (getVersion c send s = (Inl err, s') \<longrightarrow>
      THORChainApp_serializePath c send path s = (Inl err, s')) \<and>
   (getVersion c send s = (Inr v, s') \<and> returnCode v \<noteq> Some (NoErrors c) \<longrightarrow>
      THORChainApp_serializePath c send path s =
        (Inl (LedgerError (returnCode v) (Some (errorMessage v))), s')) \<and>
   (getVersion c send s = (Inr v, s') \<and> returnCode v = Some (NoErrors c) \<and>
    major v \<noteq> Some 2 \<longrightarrow>
      THORChainApp_serializePath c send path s =
        (Inl (LedgerError (Some (ExecutionError c)) (Some ''App Version is not supported'')),
         s')) \<and>
   (getVersion c send s = (Inr v, s') \<and> returnCode v = Some (NoErrors c) \<and>
    major v = Some 2 \<longrightarrow>
      THORChainApp_serializePath c send path s = (serializePathv2 path, s')) \<and>
   (THORChainApp_serializePath c send path s = (Inl err, s') \<longrightarrow>
      THORChainApp_signGetChunks c send path message s = (Inl err, s') \<and>
      sign c send path message s = (Inl err, s') \<and>
      getAddressAndPubKey c send path hrp s = (Inl err, s') \<and>
      showAddressAndPubKey c send path hrp s = (Inl err, s') \<and>
      publicKey c send path s = (Inl (ledgerErrorFromResponse c err), s')) \<and>
   (getVersion c send s = (Inl err, s') \<longrightarrow>
      THORChainApp_signSendChunk c send chunkIdx chunkNum chunk s = (Inl err, s')) \<and>
   (getVersion c send s = (Inr v, s') \<and> major v \<noteq> Some 2 \<longrightarrow>
      THORChainApp_signSendChunk c send chunkIdx chunkNum chunk s =
        (Inl (LedgerError (Some (ExecutionError c)) (Some ''App Version is not supported'')),
         s')) \<and>
   (getVersion c send s = (Inr v, s') \<and> major v = Some 2 \<longrightarrow>
      THORChainApp_signSendChunk c send chunkIdx chunkNum chunk s =
        signSendChunkv2 c send chunkIdx chunkNum chunk s') \<and>
   snd (snd (THORChainApp_signGetChunks c (logged send) path message (s, log))) =
     log @ [\<lparr>cla = CLA c, ins = INS_GET_VERSION c, p1 = 0, p2 = 0, data = [],
             statusList = None\<rparr>] \<and>
   (\<exists>rest. snd (snd (sign c (logged send) path message (s, log))) =
      log @ \<lparr>cla = CLA c, ins = INS_GET_VERSION c, p1 = 0, p2 = 0,
                 data = [], statusList = None\<rparr> # rest) \<and>
   (\<exists>rest. snd (snd (getAddressAndPubKey c (logged send) path hrp (s, log))) =
      log @ \<lparr>cla = CLA c, ins = INS_GET_VERSION c, p1 = 0, p2 = 0,
                 data = [], statusList = None\<rparr> # rest) \<and>
   (\<exists>rest. snd (snd (showAddressAndPubKey c (logged send) path hrp (s, log))) =
      log @ \<lparr>cla = CLA c, ins = INS_GET_VERSION c, p1 = 0, p2 = 0,
                 data = [], statusList = None\<rparr> # rest) \<and>
   (\<exists>rest. snd (snd (publicKey c (logged send) path (s, log))) =
      log @ \<lparr>cla = CLA c, ins = INS_GET_VERSION c, p1 = 0, p2 = 0,
                 data = [], statusList = None\<rparr> # rest)"
  using serializePath_log [of c send path s log]
    serializePath_dispatch [of c send s err s' path v]
    path_operations_stop [of c send path s err s' message hrp]
    signSendChunk_dispatch [of c send s err s' chunkIdx chunkNum chunk v]
    signGetChunks_ext [of c send path message "(s, log)"]
    sign_starts [of c send path message "(s, log)"]
    getAddressAndPubKey_starts [of c send path hrp "(s, log)"]
    showAddressAndPubKey_starts [of c send path hrp "(s, log)"]
    publicKey_starts [of c send path "(s, log)"]
  unfolding snd_conv
  by (intro conjI) (elim conjE, assumption)+

text \<open>
  A version response with the status \<open>0x6985\<close> stops \<open>serializePath\<close> and \<open>sign\<close>
  before the next response is consumed; a device of major version 1 is refused.
\<close>

theorem version_dispatch_witness:
  "THORChainApp_serializePath common0 scripted [44, 931, 0, 0, 0]
     [Inr [0, 2, 0, 0, 0, 0x69, 0x85], Inr [1]] =
     (Inl (LedgerError (Some 0x6985) (Some ''Unknown error'')), [Inr [1]]) \<and>
   sign common0 scripted [44, 931, 0, 0, 0] [1, 2, 3]
     [Inr [0, 2, 0, 0, 0, 0x69, 0x85], Inr [1]] =
     (Inl (LedgerError (Some 0x6985) (Some ''Unknown error'')), [Inr [1]]) \<and>
   THORChainApp_serializePath common0 scripted [44, 931, 0, 0, 0]
     [Inr [0, 1, 0, 0, 0, 0x90, 0x00]] =
     (Inl (LedgerError (Some 0x6400) (Some ''App Version is not supported'')), []) \<and>
   THORChainApp_signSendChunk common0 scripted 1 2 [] [Inr [0, 1, 0, 0, 0, 0x90, 0x00]] =
     (Inl (LedgerError (Some 0x6400) (Some ''App Version is not supported'')), [])"
proof -
  let ?v = "\<lparr>returnCode = Some 0x6985, errorMessage = ''Unknown error'', testMode = False,
             major = Some 2, minor = Some 0, patch = Some 0, deviceLocked = False,
             targetId = ''0''\<rparr>"
  let ?w = "\<lparr>returnCode = Some 0x9000, errorMessage = ''No errors'', testMode = False,
             major = Some 1, minor = Some 0, patch = Some 0, deviceLocked = False,
             targetId = ''0''\<rparr>"
  let ?e = "LedgerError (Some 0x6985) (Some ''Unknown error'')"
  have gv: "getVersion common0 scripted [Inr [0, 2, 0, 0, 0, 0x69, 0x85], Inr [1]] =
              (Inr ?v, [Inr [1]])"
    by (simp add: getVersion_def scripted_def common0_def returnCode_of_def slice_from_def
        slice_def adjustOffset_def at_def Let_def toString16_def hex_nat.simps hexdigit_def)
  have gw: "getVersion common0 scripted [Inr [0, 1, 0, 0, 0, 0x90, 0x00]] = (Inr ?w, [])"
    by (simp add: getVersion_def scripted_def common0_def returnCode_of_def slice_from_def
        slice_def adjustOffset_def at_def Let_def toString16_def hex_nat.simps hexdigit_def)
  have c0: "NoErrors common0 = 0x9000" "ExecutionError common0 = 0x6400"
    by (simp_all add: common0_def)
  note t1 = version_dispatch [where c = common0 and send = scripted
      and s = "[Inr [0, 2, 0, 0, 0, 0x69, 0x85], Inr [1]]" and s' = "[Inr [1]]" and v = ?v
      and path = "[44, 931, 0, 0, 0]" and message = "[1, 2, 3]" and err = ?e]
  note t2 = version_dispatch [where c = common0 and send = scripted
      and s = "[Inr [0, 1, 0, 0, 0, 0x90, 0x00]]" and s' = "[]" and v = ?w
      and path = "[44, 931, 0, 0, 0]" and chunkIdx = 1 and chunkNum = 2 and chunk = "[]"]
  have a: "THORChainApp_serializePath common0 scripted [44, 931, 0, 0, 0]
     [Inr [0, 2, 0, 0, 0, 0x69, 0x85], Inr [1]] = (Inl ?e, [Inr [1]])"
    using t1 [THEN conjunct2, THEN conjunct2, THEN conjunct1] gv by (simp add: c0)
  have b: "sign common0 scripted [44, 931, 0, 0, 0] [1, 2, 3]
     [Inr [0, 2, 0, 0, 0, 0x69, 0x85], Inr [1]] = (Inl ?e, [Inr [1]])"
    using t1 [THEN conjunct2, THEN conjunct2, THEN conjunct2, THEN conjunct2, THEN conjunct2,
        THEN conjunct1] a by simp
  have c: "THORChainApp_serializePath common0 scripted [44, 931, 0, 0, 0]
     [Inr [0, 1, 0, 0, 0, 0x90, 0x00]] =
     (Inl (LedgerError (Some 0x6400) (Some ''App Version is not supported'')), [])"
    using t2 [THEN conjunct2, THEN conjunct2, THEN conjunct2, THEN conjunct1] gw
    by (simp add: c0)
  have d: "THORChainApp_signSendChunk common0 scripted 1 2 [] [Inr [0, 1, 0, 0, 0, 0x90, 0x00]] =
     (Inl (LedgerError (Some 0x6400) (Some ''App Version is not supported'')), [])"
    using t2 [THEN conjunct2, THEN conjunct2, THEN conjunct2, THEN conjunct2, THEN conjunct2,
        THEN conjunct2, THEN conjunct2, THEN conjunct1] gw
    by (simp add: c0)
  show ?thesis
    using a b c d by (intro conjI)
qed

section \<open>The response to a chunk\<close>

text \<open>
  \<open>signSendChunk\<close> of \<open>helper.ts\<close> raises on a recognized failure status, with the
  payload appended to the message, and returns a signature only with \<open>NoErrors\<close> and
  a payload.
\<close>

lemma signSendChunk_raises_on_failure:
  assumes "send \<lparr>cla = CLA c, ins = INS_SIGN_SECP256K1 c,
                 p1 = PAYLOAD_TYPE c
                        (if chunkIdx = chunkNum then LAST else if chunkIdx = 1 then INIT else ADD),
                 p2 = 0, data = chunk,
                 statusList = Some [NoErrors c, DataIsInvalid c, BadKeyHandle c,
                                    SignVerifyError c]\<rparr> s = (Inr response, s')"
    and "returnCode_of response = Some (BadKeyHandle c) \<or>
         returnCode_of response = Some (DataIsInvalid c) \<or>
         returnCode_of response = Some (SignVerifyError c)"
  shows "signSendChunk c send chunkIdx chunkNum chunk s =
      (Inl (LedgerError (returnCode_of response)
         (Some (errorCodeToString c (returnCode_of response) @ '' : '' @
            toString_ascii (slice response 0 (int (length response) - 2))))), s')"
proof -
  have m: "(let payloadType = ADD;
          payloadType = (if chunkIdx = 1 then INIT else payloadType);
          payloadType = (if chunkIdx = chunkNum then LAST else payloadType) in f payloadType)
      = f (if chunkIdx = chunkNum then LAST else if chunkIdx = 1 then INIT else ADD)"
    for f :: "payload_type \<Rightarrow> 'x"
    by (simp add: Let_def)
  show ?thesis
    unfolding signSendChunk_def m assms(1)
    using assms(2) by (simp add: Let_def)
qed

lemma signSendChunk_signature_on_success:
  assumes "signSendChunk c send chunkIdx chunkNum chunk s = (Inr result, s')"
    and "signature result = Some sig"
  shows "returnCode result = Some (NoErrors c)"
proof -
  let ?a = "\<lparr>cla = CLA c, ins = INS_SIGN_SECP256K1 c,
                 p1 = PAYLOAD_TYPE c
                        (if chunkIdx = chunkNum then LAST else if chunkIdx = 1 then INIT else ADD),
                 p2 = 0, data = chunk,
                 statusList = Some [NoErrors c, DataIsInvalid c, BadKeyHandle c,
                                    SignVerifyError c]\<rparr>"
  have m: "(let payloadType = ADD;
          payloadType = (if chunkIdx = 1 then INIT else payloadType);
          payloadType = (if chunkIdx = chunkNum then LAST else payloadType) in f payloadType)
      = f (if chunkIdx = chunkNum then LAST else if chunkIdx = 1 then INIT else ADD)"
    for f :: "payload_type \<Rightarrow> 'x"
    by (simp add: Let_def)
  obtain r t where rs: "send ?a s = (r, t)"
    by (cases "send ?a s")
  show ?thesis
  proof (cases r)
    case (Inl e)
    then show ?thesis
      using assms(1) unfolding signSendChunk_def m rs by simp
  next
    case (Inr response)
    then show ?thesis
      using assms unfolding signSendChunk_def m rs
      by (auto simp: Let_def split: if_splits)
  qed
qed

text \<open>The loop of \<open>sign\<close> stops at the first result whose status is not \<open>NoErrors\<close>.\<close>

lemma sign_loop_abort:
  assumes "i < length chunks"
    and "THORChainApp_signSendChunk c send (1 + int i) (int (length chunks)) (chunks ! i) s =
           (Inr result', s')"
    and "returnCode result' \<noteq> Some (NoErrors c)"
  shows "sign_loop c send chunks i result s = (Inr result', s')"
  using assms by (subst sign_loop.simps) simp

lemma sign_loop_raise:
  assumes "i < length chunks"
    and "THORChainApp_signSendChunk c send (1 + int i) (int (length chunks)) (chunks ! i) s =
           (Inl err, s')"
  shows "sign_loop c send chunks i result s = (Inl err, s')"
  using assms by (subst sign_loop.simps) simp

text \<open>
  Every result that \<open>signSendChunkv1\<close> returns carries the payload as its signature,
  whatever the status.
\<close>

lemma signSendChunkv1_always_signature:
  assumes "signSendChunkv1 c send chunkIdx chunkNum chunk s = (Inr result, s')"
  shows "signature result \<noteq> None"
proof -
  let ?a = "\<lparr>cla = CLA c, ins = INS_SIGN_SECP256K1 c, p1 = chunkIdx, p2 = chunkNum,
             data = chunk,
             statusList = Some [NoErrors c, DataIsInvalid c, BadKeyHandle c]\<rparr>"
  obtain r t where rs: "send ?a s = (r, t)"
    by (cases "send ?a s")
  show ?thesis
  proof (cases r)
    case (Inl e)
    then show ?thesis
      using assms unfolding signSendChunkv1_def rs by simp
  next
    case (Inr response)
    then show ?thesis
      using assms unfolding signSendChunkv1_def rs
      by (auto simp: Let_def split: if_splits)
  qed
qed

text \<open>
  C4. The claim describes \<open>signSendChunk\<close> of \<open>helper.ts\<close> (the two lemmas above),
  but \<open>signSendChunkv1\<close>, the decoder \<open>index.ts\<close> reaches through
  \<open>signSendChunkv2\<close>, breaks it. For the response \<open>bad\<close> with the status \<open>0x6984\<close>
  (invalid data) it returns a result, with the payload \<open>bad\<close> as the signature, where
  the claim raises an error; and for the bare status \<open>0x9000\<close> it raises an error with
  the code of success.
\<close>

theorem signSendChunkv1_failure_returned:
  "signSendChunkv1 common0 scripted (payload_code ADD) 0 [1, 2, 3]
     [Inr [0x62, 0x61, 0x64, 0x69, 0x84]] =
     (Inr \<lparr>returnCode = Some 0x6984, errorMessage = ''Unknown error : bad'',
            signature = Some [0x62, 0x61, 0x64]\<rparr>, []) \<and>
   signSendChunkv1 common0 scripted (payload_code ADD) 0 [1, 2, 3] [Inr [0x90, 0x00]] =
     (Inl (LedgerError (Some 0x9000) (Some ''No errors'')), [])"
  by code_simp

text \<open>
  C3. \<open>sign\<close> sends the chunks in order and its loop stops at the first result whose
  status is not \<open>NoErrors\<close> (lemma \<open>sign_loop_abort\<close>), but the result it then returns
  is not the one the claim describes. With a message of 200 bytes (the path chunk and
  two payload chunks) and the response \<open>bad\<close> with the status \<open>0x6984\<close> to the first
  payload chunk, the loop stops before the last chunk is sent and the result carries
  the payload \<open>bad\<close> as its signature; and when the device answers the path chunk
  with the bare status \<open>0x9000\<close>, \<open>sign\<close> raises an error instead of going on. Both
  come from \<open>signSendChunkv1\<close>.
\<close>

theorem sign_failure_carries_signature:
  "sign common0 scripted [44, 931, 0, 0, 0] (replicate 200 1)
     [Inr [0, 2, 0, 0, 0, 0x90, 0x00],
      Inr [0, 2, 0, 0, 0, 0x90, 0x00], Inr [0, 0x90, 0x00],
      Inr [0, 2, 0, 0, 0, 0x90, 0x00], Inr [0x62, 0x61, 0x64, 0x69, 0x84],
      Inr [0, 2, 0, 0, 0, 0x90, 0x00], Inr [7, 7, 0x90, 0x00]] =
     (Inr \<lparr>returnCode = Some 0x6984, errorMessage = ''Unknown error : bad'',
            signature = Some [0x62, 0x61, 0x64]\<rparr>,
      [Inr [0, 2, 0, 0, 0, 0x90, 0x00], Inr [7, 7, 0x90, 0x00]]) \<and>
   sign common0 scripted [44, 931, 0, 0, 0] (replicate 200 1)
     [Inr [0, 2, 0, 0, 0, 0x90, 0x00],
      Inr [0, 2, 0, 0, 0, 0x90, 0x00], Inr [0x90, 0x00],
      Inr [0, 2, 0, 0, 0, 0x90, 0x00], Inr [0x90, 0x00]] =
     (Inl (LedgerError (Some 0x9000) (Some ''No errors'')),
      [Inr [0, 2, 0, 0, 0, 0x90, 0x00], Inr [0x90, 0x00]])"
  by code_simp

end
